theory Spec2Isabelle
  imports Complex_Main "HOL-Library.Log_Nat"
begin

section \<open>Python numbers used by \<^verbatim>\<open>create_icons.py\<close>\<close>

text \<open>
  The script computes its geometry with Python integers (unbounded, modelled by \<open>int\<close>;
  \<^verbatim>\<open>//\<close> is floor division, which is \<open>div\<close> on \<open>int\<close>) and with four expressions of
  the form \<^verbatim>\<open>int(n * c)\<close> where \<open>n\<close> is an integer and \<open>c\<close> one of the float literals
  \<^verbatim>\<open>0.8\<close>, \<^verbatim>\<open>0.7\<close>, \<^verbatim>\<open>0.15\<close>, \<^verbatim>\<open>0.3\<close>. Such an expression converts \<open>n\<close> to a
  double (round to nearest, ties to even; OverflowError when the result does not fit),
  multiplies two doubles (correctly rounded) and truncates the product toward zero.

  A finite double is written \<open>Dyadic m k\<close>, standing for \<open>m / 2 ^ k\<close>. Every product
  formed below is zero or at least \<open>0.15\<close> in magnitude, so the subnormal range is never
  entered; a magnitude of \<open>2 ^ 1024\<close> or more stands for an infinity, which \<^verbatim>\<open>int()\<close>
  rejects with OverflowError.
\<close>

datatype error = OverflowError string | ValueError string | MemoryError | OSError string

datatype py_float = Dyadic int nat

definition bit_length :: "nat \<Rightarrow> nat" where
  "bit_length a = floorlog 2 a"

text \<open>Rounding a natural number to 53 significant bits, nearest, ties to even.\<close>

definition round53 :: "nat \<Rightarrow> nat" where
  "round53 a =
     (let s = bit_length a - 53;
          q = a div 2 ^ s;
          r = a mod 2 ^ s
      in (if 2 ^ s < 2 * r \<or> (2 * r = 2 ^ s \<and> odd q) then q + 1 else q) * 2 ^ s)"

definition float_of_int :: "int \<Rightarrow> error + py_float" where
  "float_of_int n =
     (let m = round53 (nat \<bar>n\<bar>)
      in if 2 ^ 1024 \<le> m then Inl (OverflowError ''int too large to convert to float'')
         else Inr (Dyadic (sgn n * int m) 0))"

fun float_mul :: "py_float \<Rightarrow> py_float \<Rightarrow> py_float" where
  "float_mul (Dyadic a j) (Dyadic b k) =
     Dyadic (sgn (a * b) * int (round53 (nat \<bar>a * b\<bar>))) (j + k)"

fun int_of_float :: "py_float \<Rightarrow> error + int" where
  "int_of_float (Dyadic m k) =
     (let t = nat \<bar>m\<bar> div 2 ^ k
      in if 2 ^ 1024 \<le> t then Inl (OverflowError ''cannot convert float infinity to integer'')
         else Inr (sgn m * int t))"

text \<open>The doubles denoted by the four literals (\<^verbatim>\<open>float.hex\<close>: \<^verbatim>\<open>0x1.999999999999ap-1\<close>,
  \<^verbatim>\<open>0x1.6666666666666p-1\<close>, \<^verbatim>\<open>0x1.3333333333333p-3\<close>, \<^verbatim>\<open>0x1.3333333333333p-2\<close>).\<close>

definition float_0_8 :: py_float where
  "float_0_8 = Dyadic 3602879701896397 52"

definition float_0_7 :: py_float where
  "float_0_7 = Dyadic 3152519739159347 52"

definition float_0_15 :: py_float where
  "float_0_15 = Dyadic 5404319552844595 55"

definition float_0_3 :: py_float where
  "float_0_3 = Dyadic 5404319552844595 54"

text \<open>\<^verbatim>\<open>int(n * c)\<close> for an integer \<open>n\<close> and a float \<open>c\<close>.\<close>

definition int_of_product :: "int \<Rightarrow> py_float \<Rightarrow> error + int" where
  "int_of_product n c =
     (case float_of_int n of Inl e \<Rightarrow> Inl e | Inr f \<Rightarrow> int_of_float (float_mul f c))"

text \<open>\<^verbatim>\<open>str(n)\<close> for an integer, and \<^verbatim>\<open>str(e)\<close> for a caught exception.\<close>

definition digit_char :: "nat \<Rightarrow> char" where
  "digit_char d = ''0123456789'' ! d"

fun str_nat :: "nat \<Rightarrow> string" where
  "str_nat n = (if n < 10 then [digit_char n] else str_nat (n div 10) @ [digit_char (n mod 10)])"

declare str_nat.simps [simp del]

definition str_int :: "int \<Rightarrow> string" where
  "str_int n = (if n < 0 then CHR ''-'' # str_nat (nat (- n)) else str_nat (nat n))"

fun str_error :: "error \<Rightarrow> string" where
  "str_error (OverflowError msg) = msg"
| "str_error (ValueError msg) = msg"
| "str_error MemoryError = []"
| "str_error (OSError msg) = msg"

section \<open>Bitmaps and the drawing calls\<close>

text \<open>
  An image is its dimensions and its pixels. The calls into the imaging library are
  modelled by their documented behaviour.

  \<^item> \<^verbatim>\<open>Image.new\<close> rejects a negative size with ValueError, a size that does not fit
    a C \<open>int\<close> with OverflowError (the two messages are those of a platform whose C
    \<open>long\<close> has 64 bits), and a width above \<open>INT_MAX / 4 - 1\<close> with MemoryError. These
    are the checks of the library itself. A machine that cannot provide the memory of a
    large image raises MemoryError at a smaller size, which \<open>Image_new\<close> does not show:
    what is stated below about sizes other than the four icon sizes is therefore stated
    either about an image that has been allocated or with the outcome of \<open>Image_new\<close>
    left open.
  \<^item> \<open>rectangle\<close> is the effect of \<^verbatim>\<open>draw.rectangle\<close>: the box \<open>[x0, y0, x1, y1]\<close> is
    filled, both end points included, clipped to the image. \<open>draw_rectangle\<close> is the call
    itself, which raises ValueError when \<open>x1 < x0\<close> or \<open>y1 < y0\<close>.
  \<^item> \<open>rounded_rectangle\<close> fills the part of its bounding box that the library's
    rasterisation of the rounded corners keeps. That rasterisation is a parameter
    (\<open>corner_shape\<close>): nothing is assumed about it. \<open>draw_rounded_rectangle\<close> is the call,
    with the same check of the box.
  \<^item> Reading a pixel outside the image fails (\<open>None\<close>).
\<close>

type_synonym rgba = "nat \<times> nat \<times> nat \<times> nat"

type_synonym box = "int \<times> int \<times> int \<times> int"

type_synonym corner_shape = "box \<Rightarrow> int \<Rightarrow> int \<times> int \<Rightarrow> bool"

record bitmap =
  width :: int
  height :: int
  pixels :: "int \<times> int \<Rightarrow> rgba"

definition alpha :: "rgba \<Rightarrow> nat" where
  "alpha c = (case c of (r, g, b, a) \<Rightarrow> a)"

definition Image_new :: "int \<times> int \<Rightarrow> rgba \<Rightarrow> error + bitmap" where
  "Image_new dims color =
     (case dims of (w, h) \<Rightarrow>
        if w < 0 \<or> h < 0 then Inl (ValueError ''Width and height must be >= 0'')
        else if 2 ^ 63 \<le> w \<or> 2 ^ 63 \<le> h
          then Inl (OverflowError ''Python int too large to convert to C long'')
        else if 2 ^ 31 \<le> w \<or> 2 ^ 31 \<le> h
          then Inl (OverflowError ''signed integer is greater than maximum'')
        else if (2 ^ 31 - 1) div 4 - 1 < w then Inl MemoryError
        else Inr \<lparr>width = w, height = h, pixels = (\<lambda>p. color)\<rparr>)"

definition inside :: "bitmap \<Rightarrow> int \<times> int \<Rightarrow> bool" where
  "inside img p = (case p of (x, y) \<Rightarrow> 0 \<le> x \<and> x < width img \<and> 0 \<le> y \<and> y < height img)"

definition getpixel :: "bitmap \<Rightarrow> int \<times> int \<Rightarrow> rgba option" where
  "getpixel img p = (if inside img p then Some (pixels img p) else None)"

definition in_box :: "box \<Rightarrow> int \<times> int \<Rightarrow> bool" where
  "in_box b p =
     (case b of (x0, y0, x1, y1) \<Rightarrow>
        case p of (x, y) \<Rightarrow> x0 \<le> x \<and> x \<le> x1 \<and> y0 \<le> y \<and> y \<le> y1)"

definition rectangle :: "box \<Rightarrow> rgba \<Rightarrow> bitmap \<Rightarrow> bitmap" where
  "rectangle b fill img =
     img\<lparr>pixels := (\<lambda>p. if inside img p \<and> in_box b p then fill else pixels img p)\<rparr>"

definition rounded_rectangle :: "corner_shape \<Rightarrow> box \<Rightarrow> int \<Rightarrow> rgba \<Rightarrow> bitmap \<Rightarrow> bitmap" where
  "rounded_rectangle shape b r fill img =
     img\<lparr>pixels :=
       (\<lambda>p. if inside img p \<and> in_box b p \<and> shape b r p then fill else pixels img p)\<rparr>"

definition check_box :: "box \<Rightarrow> error option" where
  "check_box b =
     (case b of (x0, y0, x1, y1) \<Rightarrow>
        if x1 < x0 then Some (ValueError ''x1 must be greater than or equal to x0'')
        else if y1 < y0 then Some (ValueError ''y1 must be greater than or equal to y0'')
        else None)"

definition draw_rectangle :: "box \<Rightarrow> rgba \<Rightarrow> bitmap \<Rightarrow> error + bitmap" where
  "draw_rectangle b fill img =
     (case check_box b of Some e \<Rightarrow> Inl e | None \<Rightarrow> Inr (rectangle b fill img))"

definition draw_rounded_rectangle ::
    "corner_shape \<Rightarrow> box \<Rightarrow> int \<Rightarrow> rgba \<Rightarrow> bitmap \<Rightarrow> error + bitmap" where
  "draw_rounded_rectangle shape b r fill img =
     (case check_box b of
        Some e \<Rightarrow> Inl e
      | None \<Rightarrow> Inr (rounded_rectangle shape b r fill img))"

definition transparent :: rgba where
  "transparent = (0, 0, 0, 0)"

definition ios_blue :: rgba where
  "ios_blue = (0, 122, 255, 255)"

definition white :: rgba where
  "white = (255, 255, 255, 255)"

section \<open>\<^verbatim>\<open>create_icon\<close>\<close>

text \<open>
  The local variables that \<^verbatim>\<open>create_icon\<close> computes in source lines 14 to 26 are
  collected in a record; \<open>sz\<close> is the parameter \<^verbatim>\<open>size\<close>. \<open>note_layout\<close> is that
  computation alone; \<open>note_card\<close> below interleaves it with the drawing calls in the order
  of the source.
\<close>

record layout =
  margin :: int
  radius :: int
  note_margin :: int
  note_width :: int
  note_height :: int
  note_x :: int
  note_y :: int

definition note_layout :: "int \<Rightarrow> error + layout" where
  "note_layout sz =
     (let m = max 1 (sz div 8);
          r = max 2 (sz div 6);
          nm = max 2 (sz div 4);
          nw = sz - nm * 2
      in case int_of_product nw float_0_8 of
           Inl e \<Rightarrow> Inl e
         | Inr nh \<Rightarrow>
             Inr \<lparr>margin = m, radius = r, note_margin = nm, note_width = nw,
                  note_height = nh, note_x = nm, note_y = (sz - nh) div 2\<rparr>)"

text \<open>The variables of the branch \<^verbatim>\<open>if size >= 32\<close> (source lines 36 to 39).\<close>

record line_layout =
  line_height :: int
  line_spacing :: int
  line_width :: int
  line_x :: int

definition lines_layout :: "int \<Rightarrow> layout \<Rightarrow> error + line_layout" where
  "lines_layout sz L =
     (let lh = max 1 (sz div 16);
          ls = max 2 (sz div 8)
      in case int_of_product (note_width L) float_0_7 of
           Inl e \<Rightarrow> Inl e
         | Inr lw \<Rightarrow>
             (case int_of_product (note_width L) float_0_15 of
                Inl e \<Rightarrow> Inl e
              | Inr t \<Rightarrow>
                  Inr \<lparr>line_height = lh, line_spacing = ls, line_width = lw,
                       line_x = note_x L + t\<rparr>))"

text \<open>The loop \<^verbatim>\<open>for i in range(3)\<close> (source lines 41 to 47): \<open>line_y\<close> is line 42,
  \<open>line_fits\<close> the test of line 43, \<open>line_box\<close> the box of line 45.\<close>

definition line_y :: "layout \<Rightarrow> line_layout \<Rightarrow> int \<Rightarrow> error + int" where
  "line_y L A i =
     (case int_of_product (note_height L) float_0_3 of
        Inl e \<Rightarrow> Inl e
      | Inr t \<Rightarrow> Inr (note_y L + t + i * line_spacing A))"

definition line_fits :: "layout \<Rightarrow> line_layout \<Rightarrow> int \<Rightarrow> bool" where
  "line_fits L A ly = (ly + line_height A < note_y L + note_height L)"

definition line_box :: "line_layout \<Rightarrow> int \<Rightarrow> box" where
  "line_box A ly = (line_x A, ly, line_x A + line_width A, ly + line_height A)"

fun draw_lines :: "layout \<Rightarrow> line_layout \<Rightarrow> int list \<Rightarrow> bitmap \<Rightarrow> error + bitmap" where
  "draw_lines L A [] img = Inr img"
| "draw_lines L A (i # rest) img =
     (case line_y L A i of
        Inl e \<Rightarrow> Inl e
      | Inr ly \<Rightarrow>
          if line_fits L A ly
          then (case draw_rectangle (line_box A ly) ios_blue img of
                  Inl e \<Rightarrow> Inl e
                | Inr img' \<Rightarrow> draw_lines L A rest img')
          else draw_lines L A rest img)"

definition badge_box :: "int \<Rightarrow> layout \<Rightarrow> box" where
  "badge_box sz L = (margin L, margin L, sz - margin L, sz - margin L)"

definition note_box :: "layout \<Rightarrow> box" where
  "note_box L = (note_x L, note_y L, note_x L + note_width L, note_y L + note_height L)"

text \<open>Source lines 13 to 32 on the image \<open>img0\<close> that \<^verbatim>\<open>Image.new\<close> returned: the badge,
  then the note card. The layout is returned with the image, for the lines that follow.\<close>

definition note_card :: "corner_shape \<Rightarrow> int \<Rightarrow> bitmap \<Rightarrow> error + (layout \<times> bitmap)" where
  "note_card shape sz img0 =
     (let m = max 1 (sz div 8)
      in case draw_rounded_rectangle shape (m, m, sz - m, sz - m) (max 2 (sz div 6))
                ios_blue img0 of
           Inl e \<Rightarrow> Inl e
         | Inr img1 \<Rightarrow>
             (case note_layout sz of
                Inl e \<Rightarrow> Inl e
              | Inr L \<Rightarrow>
                  (case draw_rectangle (note_box L) white img1 of
                     Inl e \<Rightarrow> Inl e
                   | Inr img2 \<Rightarrow> Inr (L, img2))))"

text \<open>Source lines 10 to 32.\<close>

definition draw_note :: "corner_shape \<Rightarrow> int \<Rightarrow> error + (layout \<times> bitmap)" where
  "draw_note shape sz =
     (case Image_new (sz, sz) transparent of
        Inl e \<Rightarrow> Inl e
      | Inr img0 \<Rightarrow> note_card shape sz img0)"

text \<open>Source lines 35 to 47: the accent lines, for the larger icons.\<close>

definition note_lines :: "int \<Rightarrow> layout \<Rightarrow> bitmap \<Rightarrow> error + bitmap" where
  "note_lines sz L img =
     (if 32 \<le> sz
      then (case lines_layout sz L of
              Inl e \<Rightarrow> Inl e
            | Inr A \<Rightarrow> draw_lines L A [0, 1, 2] img)
      else Inr img)"

definition create_icon :: "corner_shape \<Rightarrow> int \<Rightarrow> error + bitmap" where
  "create_icon shape sz =
     (case draw_note shape sz of
        Inl e \<Rightarrow> Inl e
      | Inr (L, img) \<Rightarrow> note_lines sz L img)"

section \<open>\<^verbatim>\<open>main\<close>\<close>

text \<open>
  The world the script acts on: the files written, the lines printed, and the paths
  handed to \<^verbatim>\<open>icon.save\<close> in call order. The environment decides what the script does
  not: how rounded corners are rasterised, whether \<^verbatim>\<open>os.makedirs\<close> and each
  \<^verbatim>\<open>icon.save\<close> fail, and what \<^verbatim>\<open>os.path.abspath\<close> returns. Paths are joined as
  \<^verbatim>\<open>posixpath.join\<close> does.
\<close>

record world =
  files :: "string \<rightharpoonup> bitmap"
  stdout :: "string list"
  save_calls :: "string list"

record env =
  corners :: corner_shape
  makedirs_error :: "string \<Rightarrow> error option"
  save_error :: "string \<Rightarrow> error option"
  abspath :: "string \<Rightarrow> string"

definition path_join :: "string \<Rightarrow> string \<Rightarrow> string" where
  "path_join a b =
     (if b \<noteq> [] \<and> hd b = CHR ''/'' then b
      else if a = [] \<or> last a = CHR ''/'' then a @ b
      else a @ ''/'' @ b)"

definition icon_name :: "int \<Rightarrow> string" where
  "icon_name sz = ''icon'' @ str_int sz @ ''.png''"

text \<open>The two marks are the UTF-8 bytes of U+2713 and U+2717.\<close>

definition created_message :: "int \<Rightarrow> string" where
  "created_message sz =
     [CHR 0xE2, CHR 0x9C, CHR 0x93] @ '' Created '' @ icon_name sz"

definition failed_message :: "int \<Rightarrow> error \<Rightarrow> string" where
  "failed_message sz e =
     [CHR 0xE2, CHR 0x9C, CHR 0x97] @ '' Failed to create ''
       @ icon_name sz @ '': '' @ str_error e"

text \<open>One pass of the body of \<^verbatim>\<open>for size in sizes\<close> with its \<^verbatim>\<open>try\<close>/\<^verbatim>\<open>except\<close>
  (source lines 60 to 66).\<close>

definition save_icon :: "env \<Rightarrow> string \<Rightarrow> int \<Rightarrow> world \<Rightarrow> world" where
  "save_icon E icons_dir sz w =
     (case create_icon (corners E) sz of
        Inl e \<Rightarrow> w\<lparr>stdout := stdout w @ [failed_message sz e]\<rparr>
      | Inr icon \<Rightarrow>
          let icon_path = path_join icons_dir (icon_name sz);
              w' = w\<lparr>save_calls := save_calls w @ [icon_path]\<rparr>
          in case save_error E icon_path of
               Some e \<Rightarrow> w'\<lparr>stdout := stdout w' @ [failed_message sz e]\<rparr>
             | None \<Rightarrow>
                 w'\<lparr>files := (files w')(icon_path \<mapsto> icon),
                    stdout := stdout w' @ [created_message sz]\<rparr>)"

fun save_icons :: "env \<Rightarrow> string \<Rightarrow> int list \<Rightarrow> world \<Rightarrow> world" where
  "save_icons E icons_dir [] w = w"
| "save_icons E icons_dir (sz # rest) w = save_icons E icons_dir rest (save_icon E icons_dir sz w)"

definition icons_dir :: string where
  "icons_dir = path_join (path_join ''extension'' ''assets'') ''icons''"

definition sizes :: "int list" where
  "sizes = [16, 32, 48, 128]"

text \<open>The line that one pass of the loop prints for a size: source line 64 or 66.\<close>

definition report :: "env \<Rightarrow> string \<Rightarrow> int \<Rightarrow> string" where
  "report E dir sz =
     (case create_icon (corners E) sz of
        Inl e \<Rightarrow> failed_message sz e
      | Inr icon \<Rightarrow>
          (case save_error E (path_join dir (icon_name sz)) of
             Some e \<Rightarrow> failed_message sz e
           | None \<Rightarrow> created_message sz))"

definition main :: "env \<Rightarrow> world \<Rightarrow> error + world" where
  "main E w =
     (case makedirs_error E icons_dir of
        Some e \<Rightarrow> Inl e
      | None \<Rightarrow>
          let w' = save_icons E icons_dir sizes w
          in Inr (w'\<lparr>stdout := stdout w' @
                    [CHR 0x0A # ''Icons saved to: '' @ abspath E icons_dir]\<rparr>))"

section \<open>The formulas of the specification\<close>

text \<open>
  The specification states the layout by formulas on real numbers, with floor: integer
  division, and the products by \<open>0.8\<close> and \<open>0.3\<close>. The definitions of this section follow
  its words, not the source; they are compared with \<open>note_layout\<close>, \<open>note_card\<close> and
  \<open>note_lines\<close> below.
\<close>

definition spec_margin :: "int \<Rightarrow> int" where
  "spec_margin sz = max 1 \<lfloor>real_of_int sz / 8\<rfloor>"

definition spec_radius :: "int \<Rightarrow> int" where
  "spec_radius sz = max 2 \<lfloor>real_of_int sz / 6\<rfloor>"

definition spec_note_margin :: "int \<Rightarrow> int" where
  "spec_note_margin sz = max 2 \<lfloor>real_of_int sz / 4\<rfloor>"

definition spec_note_width :: "int \<Rightarrow> int" where
  "spec_note_width sz = sz - 2 * spec_note_margin sz"

definition spec_note_height :: "int \<Rightarrow> int" where
  "spec_note_height sz = \<lfloor>real_of_int (spec_note_width sz) * 0.8\<rfloor>"

definition spec_note_x :: "int \<Rightarrow> int" where
  "spec_note_x sz = spec_note_margin sz"

definition spec_note_y :: "int \<Rightarrow> int" where
  "spec_note_y sz = \<lfloor>real_of_int (sz - spec_note_height sz) / 2\<rfloor>"

definition spec_layout :: "int \<Rightarrow> layout" where
  "spec_layout sz =
     \<lparr>margin = spec_margin sz, radius = spec_radius sz, note_margin = spec_note_margin sz,
      note_width = spec_note_width sz, note_height = spec_note_height sz,
      note_x = spec_note_x sz, note_y = spec_note_y sz\<rparr>"

definition spec_badge_box :: "int \<Rightarrow> box" where
  "spec_badge_box sz = (spec_margin sz, spec_margin sz, sz - spec_margin sz, sz - spec_margin sz)"

definition spec_note_box :: "int \<Rightarrow> box" where
  "spec_note_box sz =
     (spec_note_x sz, spec_note_y sz,
      spec_note_x sz + spec_note_width sz, spec_note_y sz + spec_note_height sz)"

text \<open>The accent lines as the specification states them: for the indices 0, 1, 2 in this
  order, \<open>line_y\<close> by the formula with floor, and the rectangle of an index filled if and only
  if it fits; an index that does not fit is passed over. The specification's formulas for
  \<^verbatim>\<open>line_width\<close> and \<^verbatim>\<open>line_x\<close> are not used: the line variables \<open>A\<close> are those of the
  source.\<close>

definition spec_line_y :: "layout \<Rightarrow> line_layout \<Rightarrow> int \<Rightarrow> int" where
  "spec_line_y L A i = note_y L + \<lfloor>real_of_int (note_height L) * 0.3\<rfloor> + i * line_spacing A"

definition spec_line_fits :: "layout \<Rightarrow> line_layout \<Rightarrow> int \<Rightarrow> bool" where
  "spec_line_fits L A i = (spec_line_y L A i + line_height A < note_y L + note_height L)"

definition spec_line_box :: "layout \<Rightarrow> line_layout \<Rightarrow> int \<Rightarrow> box" where
  "spec_line_box L A i =
     (line_x A, spec_line_y L A i, line_x A + line_width A, spec_line_y L A i + line_height A)"

definition spec_lines :: "layout \<Rightarrow> line_layout \<Rightarrow> bitmap \<Rightarrow> bitmap" where
  "spec_lines L A img =
     fold (\<lambda>i im. if spec_line_fits L A i then rectangle (spec_line_box L A i) ios_blue im
                    else im) [0, 1, 2] img"

section \<open>Evaluating the arithmetic on numerals\<close>

lemma bit_length_0: "bit_length 0 = 0"
  by (simp add: bit_length_def floorlog_eq_zero_iff)

lemma bit_length_Suc_0: "bit_length (Suc 0) = 1"
  by (simp add: bit_length_def compute_floorlog)

lemma bit_length_Bit0: "bit_length (numeral (Num.Bit0 k)) = bit_length (numeral k) + 1"
  by (subst bit_length_def, subst compute_floorlog) (simp add: bit_length_def)

lemma bit_length_Bit1: "bit_length (numeral (Num.Bit1 k)) = bit_length (numeral k) + 1"
  by (subst bit_length_def, subst compute_floorlog) (simp add: bit_length_def)

lemmas bit_length_numeral = bit_length_0 bit_length_Suc_0 bit_length_Bit0 bit_length_Bit1

lemmas int_of_product_eval =
  int_of_product_def float_of_int_def round53_def Let_def bit_length_numeral
  float_0_8_def float_0_7_def float_0_15_def float_0_3_def

section \<open>Rounding to 53 bits\<close>

lemma bit_length_bounds:
  assumes "0 < a"
  shows "2 ^ (bit_length a - 1) \<le> a" and "a < 2 ^ bit_length a"
  using floorlog_bounds [of a 2] assms by (simp_all add: bit_length_def)

lemma bit_length_le: "a < 2 ^ n \<Longrightarrow> bit_length a \<le> n"
  by (simp add: bit_length_def floorlog_le_iff)

lemma round53_exact: "a < 2 ^ 53 \<Longrightarrow> round53 a = a"
  using bit_length_le [of a 53] by (simp add: round53_def Let_def)

lemma round53_shift_le:
  assumes "0 < bit_length a - 53"
  shows "2 ^ (bit_length a - 53 + 52) \<le> a"
proof -
  have "0 < a" using assms by (cases "a = 0") (simp_all add: bit_length_0)
  from bit_length_bounds(1) [OF this] assms show ?thesis
    by (simp add: algebra_simps)
qed

lemma round53_ge_multiple:
  assumes "2 ^ (bit_length a - 53) dvd G" and "G \<le> a"
  shows "G \<le> round53 a"
proof -
  define s where "s = bit_length a - 53"
  from assms(1) obtain c where c: "G = 2 ^ s * c" unfolding s_def by (auto simp: dvd_def)
  have "c \<le> a div 2 ^ s"
    using assms(2) c by (simp add: less_eq_div_iff_mult_less_eq mult.commute)
  then have "G \<le> (a div 2 ^ s) * 2 ^ s" using c by simp
  also have "\<dots> \<le> round53 a"
    by (simp add: round53_def Let_def s_def)
  finally show ?thesis .
qed

lemma round53_le: "round53 a \<le> a + 2 ^ (bit_length a - 53)"
proof -
  define s where "s = bit_length a - 53"
  have "round53 a \<le> (a div 2 ^ s + 1) * 2 ^ s"
    by (simp add: round53_def Let_def s_def)
  also have "\<dots> = (a div 2 ^ s) * 2 ^ s + 2 ^ s" by (simp add: algebra_simps)
  also have "\<dots> \<le> a + 2 ^ s" by simp
  finally show ?thesis by (simp add: s_def)
qed

section \<open>The layout at the four icon sizes\<close>

lemma note_layout_16:
  "note_layout 16 = Inr \<lparr>margin = 2, radius = 2, note_margin = 4, note_width = 8,
     note_height = 6, note_x = 4, note_y = 5\<rparr>"
  by (simp add: note_layout_def int_of_product_eval)

lemma note_layout_32:
  "note_layout 32 = Inr \<lparr>margin = 4, radius = 5, note_margin = 8, note_width = 16,
     note_height = 12, note_x = 8, note_y = 10\<rparr>"
  by (simp add: note_layout_def int_of_product_eval)

lemma note_layout_48:
  "note_layout 48 = Inr \<lparr>margin = 6, radius = 8, note_margin = 12, note_width = 24,
     note_height = 19, note_x = 12, note_y = 14\<rparr>"
  by (simp add: note_layout_def int_of_product_eval)

lemma note_layout_128:
  "note_layout 128 = Inr \<lparr>margin = 16, radius = 21, note_margin = 32, note_width = 64,
     note_height = 51, note_x = 32, note_y = 38\<rparr>"
  by (simp add: note_layout_def int_of_product_eval)

lemmas note_layout_sizes = note_layout_16 note_layout_32 note_layout_48 note_layout_128

text \<open>
  Claim C10. Over the fixed sizes 16, 32, 48, 128 taken in increasing order, the margin,
  the note margin, the note width and the note height computed by \<^verbatim>\<open>create_icon\<close> are
  each non-decreasing in the size.
\<close>

theorem scaling_monotone:
  "\<forall>s \<in> set sizes. \<forall>t \<in> set sizes. s \<le> t \<longrightarrow>
     (\<exists>Ls Lt. note_layout s = Inr Ls \<and> note_layout t = Inr Lt \<and>
        margin Ls \<le> margin Lt \<and> note_margin Ls \<le> note_margin Lt \<and>
        note_width Ls \<le> note_width Lt \<and> note_height Ls \<le> note_height Lt)"
  by (simp add: sizes_def note_layout_sizes)

theorem scaling_monotone_witness:
  "(16::int) \<in> set sizes \<and> 48 \<in> set sizes \<and> (16::int) \<le> 48 \<and>
     (\<exists>Ls Lt. note_layout 16 = Inr Ls \<and> note_layout 48 = Inr Lt \<and>
        margin Ls \<le> margin Lt \<and> note_margin Ls \<le> note_margin Lt \<and>
        note_width Ls \<le> note_width Lt \<and> note_height Ls \<le> note_height Lt)"
proof -
  have a: "(16::int) \<in> set sizes" and b: "(48::int) \<in> set sizes"
    by (simp_all add: sizes_def)
  have c: "(16::int) \<le> 48" by simp
  from scaling_monotone a b c show ?thesis by blast
qed

section \<open>The icons of the four sizes\<close>

lemma lines_layout_32:
  "lines_layout 32 \<lparr>margin = 4, radius = 5, note_margin = 8, note_width = 16,
     note_height = 12, note_x = 8, note_y = 10\<rparr>
   = Inr \<lparr>line_height = 2, line_spacing = 4, line_width = 11, line_x = 10\<rparr>"
  by (simp add: lines_layout_def int_of_product_eval)

lemma lines_layout_48:
  "lines_layout 48 \<lparr>margin = 6, radius = 8, note_margin = 12, note_width = 24,
     note_height = 19, note_x = 12, note_y = 14\<rparr>
   = Inr \<lparr>line_height = 3, line_spacing = 6, line_width = 16, line_x = 15\<rparr>"
  by (simp add: lines_layout_def int_of_product_eval)

lemma lines_layout_128:
  "lines_layout 128 \<lparr>margin = 16, radius = 21, note_margin = 32, note_width = 64,
     note_height = 51, note_x = 32, note_y = 38\<rparr>
   = Inr \<lparr>line_height = 8, line_spacing = 16, line_width = 44, line_x = 41\<rparr>"
  by (simp add: lines_layout_def int_of_product_eval)

lemma line_y_32:
  "line_y \<lparr>margin = 4, radius = 5, note_margin = 8, note_width = 16,
     note_height = 12, note_x = 8, note_y = 10\<rparr>
     \<lparr>line_height = 2, line_spacing = 4, line_width = 11, line_x = 10\<rparr> i = Inr (13 + i * 4)"
  by (simp add: line_y_def int_of_product_eval)

lemma line_y_48:
  "line_y \<lparr>margin = 6, radius = 8, note_margin = 12, note_width = 24,
     note_height = 19, note_x = 12, note_y = 14\<rparr>
     \<lparr>line_height = 3, line_spacing = 6, line_width = 16, line_x = 15\<rparr> i = Inr (19 + i * 6)"
  by (simp add: line_y_def int_of_product_eval)

lemma line_y_128:
  "line_y \<lparr>margin = 16, radius = 21, note_margin = 32, note_width = 64,
     note_height = 51, note_x = 32, note_y = 38\<rparr>
     \<lparr>line_height = 8, line_spacing = 16, line_width = 44, line_x = 41\<rparr> i = Inr (53 + i * 16)"
  by (simp add: line_y_def int_of_product_eval)

lemma draw_note_eq:
  assumes "note_layout sz = Inr L" and "0 \<le> sz" and "sz \<le> 536870910"
    and "check_box (badge_box sz L) = None" and "check_box (note_box L) = None"
  shows "draw_note shape sz =
    Inr (L, rectangle (note_box L) white
             (rounded_rectangle shape (badge_box sz L) (radius L) ios_blue
                \<lparr>width = sz, height = sz, pixels = (\<lambda>p. transparent)\<rparr>))"
proof -
  from assms(1) have m: "margin L = max 1 (sz div 8)" and r: "radius L = max 2 (sz div 6)"
    by (auto simp add: note_layout_def Let_def split: sum.splits)
  from assms(4) have b: "check_box (max 1 (sz div 8), max 1 (sz div 8),
      sz - max 1 (sz div 8), sz - max 1 (sz div 8)) = None"
    by (simp add: badge_box_def m)
  from assms(2,3) have i: "Image_new (sz, sz) transparent =
      Inr \<lparr>width = sz, height = sz, pixels = (\<lambda>p. transparent)\<rparr>"
    by (simp add: Image_new_def)
  show ?thesis
    by (simp add: draw_note_def i note_card_def Let_def draw_rounded_rectangle_def b
        assms(1,5) draw_rectangle_def badge_box_def m r)
qed

lemma draw_note_16:
  "draw_note shape 16 =
     Inr (\<lparr>margin = 2, radius = 2, note_margin = 4, note_width = 8,
            note_height = 6, note_x = 4, note_y = 5\<rparr>,
          rectangle (4, 5, 12, 11) white
            (rounded_rectangle shape (2, 2, 14, 14) 2 ios_blue
               \<lparr>width = 16, height = 16, pixels = (\<lambda>p. transparent)\<rparr>))"
  by (simp add: draw_note_eq [OF note_layout_16] check_box_def note_box_def badge_box_def)

lemma draw_note_32:
  "draw_note shape 32 =
     Inr (\<lparr>margin = 4, radius = 5, note_margin = 8, note_width = 16,
            note_height = 12, note_x = 8, note_y = 10\<rparr>,
          rectangle (8, 10, 24, 22) white
            (rounded_rectangle shape (4, 4, 28, 28) 5 ios_blue
               \<lparr>width = 32, height = 32, pixels = (\<lambda>p. transparent)\<rparr>))"
  by (simp add: draw_note_eq [OF note_layout_32] check_box_def note_box_def badge_box_def)

lemma draw_note_48:
  "draw_note shape 48 =
     Inr (\<lparr>margin = 6, radius = 8, note_margin = 12, note_width = 24,
            note_height = 19, note_x = 12, note_y = 14\<rparr>,
          rectangle (12, 14, 36, 33) white
            (rounded_rectangle shape (6, 6, 42, 42) 8 ios_blue
               \<lparr>width = 48, height = 48, pixels = (\<lambda>p. transparent)\<rparr>))"
  by (simp add: draw_note_eq [OF note_layout_48] check_box_def note_box_def badge_box_def)

lemma draw_note_128:
  "draw_note shape 128 =
     Inr (\<lparr>margin = 16, radius = 21, note_margin = 32, note_width = 64,
            note_height = 51, note_x = 32, note_y = 38\<rparr>,
          rectangle (32, 38, 96, 89) white
            (rounded_rectangle shape (16, 16, 112, 112) 21 ios_blue
               \<lparr>width = 128, height = 128, pixels = (\<lambda>p. transparent)\<rparr>))"
  by (simp add: draw_note_eq [OF note_layout_128] check_box_def note_box_def badge_box_def)

lemmas draw_note_sizes = draw_note_16 draw_note_32 draw_note_48 draw_note_128

lemmas draw_lines_eval =
  note_lines_def line_fits_def line_box_def draw_rectangle_def check_box_def

lemma create_icon_16:
  "create_icon shape 16 =
     Inr (rectangle (4, 5, 12, 11) white
            (rounded_rectangle shape (2, 2, 14, 14) 2 ios_blue
               \<lparr>width = 16, height = 16, pixels = (\<lambda>p. transparent)\<rparr>))"
  by (simp add: create_icon_def draw_note_16 note_lines_def)

lemma create_icon_32:
  "create_icon shape 32 =
     Inr (rectangle (10, 17, 21, 19) ios_blue
           (rectangle (10, 13, 21, 15) ios_blue
             (rectangle (8, 10, 24, 22) white
               (rounded_rectangle shape (4, 4, 28, 28) 5 ios_blue
                  \<lparr>width = 32, height = 32, pixels = (\<lambda>p. transparent)\<rparr>))))"
  by (simp add: create_icon_def draw_note_32 lines_layout_32 line_y_32 draw_lines_eval)

lemma create_icon_48:
  "create_icon shape 48 =
     Inr (rectangle (15, 25, 31, 28) ios_blue
           (rectangle (15, 19, 31, 22) ios_blue
             (rectangle (12, 14, 36, 33) white
               (rounded_rectangle shape (6, 6, 42, 42) 8 ios_blue
                  \<lparr>width = 48, height = 48, pixels = (\<lambda>p. transparent)\<rparr>))))"
  by (simp add: create_icon_def draw_note_48 lines_layout_48 line_y_48 draw_lines_eval)

lemma create_icon_128:
  "create_icon shape 128 =
     Inr (rectangle (41, 69, 85, 77) ios_blue
           (rectangle (41, 53, 85, 61) ios_blue
             (rectangle (32, 38, 96, 89) white
               (rounded_rectangle shape (16, 16, 112, 112) 21 ios_blue
                  \<lparr>width = 128, height = 128, pixels = (\<lambda>p. transparent)\<rparr>))))"
  by (simp add: create_icon_def draw_note_128 lines_layout_128 line_y_128 draw_lines_eval)

lemma width_rectangle: "width (rectangle b c img) = width img"
  by (simp add: rectangle_def)

lemma height_rectangle: "height (rectangle b c img) = height img"
  by (simp add: rectangle_def)

lemma width_rounded_rectangle: "width (rounded_rectangle sh b r c img) = width img"
  by (simp add: rounded_rectangle_def)

lemma height_rounded_rectangle: "height (rounded_rectangle sh b r c img) = height img"
  by (simp add: rounded_rectangle_def)

lemmas dims_simps =
  width_rectangle height_rectangle width_rounded_rectangle height_rounded_rectangle

lemmas create_icon_sizes = create_icon_16 create_icon_32 create_icon_48 create_icon_128

text \<open>
  Claim C8. For every supported size \<open>s\<close> in 16, 32, 48, 128, \<^verbatim>\<open>create_icon\<close> returns a
  bitmap whose width and height are exactly \<open>s\<close>, whatever the rasterisation of the rounded
  corners.
\<close>

theorem icon_dimensions:
  "\<forall>s \<in> set sizes. \<exists>bm. create_icon shape s = Inr bm \<and> width bm = s \<and> height bm = s"
  by (simp add: sizes_def create_icon_sizes dims_simps)

theorem icon_dimensions_witness:
  "(48::int) \<in> set sizes \<and> (\<exists>bm. create_icon (\<lambda>b r p. True) 48 = Inr bm \<and> width bm = 48 \<and> height bm = 48)"
proof -
  have a: "(48::int) \<in> set sizes" by (simp add: sizes_def)
  from icon_dimensions [of "\<lambda>b r p. True"] a show ?thesis by blast
qed

lemmas pixel_simps =
  getpixel_def inside_def in_box_def rectangle_def rounded_rectangle_def
  transparent_def ios_blue_def white_def alpha_def

text \<open>
  Claim C7. For every supported size \<open>s\<close>, the four corner pixels \<open>(0, 0)\<close>, \<open>(0, s - 1)\<close>,
  \<open>(s - 1, 0)\<close>, \<open>(s - 1, s - 1)\<close> of the returned bitmap are fully transparent (alpha 0):
  they lie outside the bounding box of the badge, and outside the note card and the lines.
\<close>

theorem corners_transparent:
  "\<forall>s \<in> set sizes. \<exists>bm. create_icon shape s = Inr bm \<and>
     (\<forall>p \<in> {(0, 0), (0, s - 1), (s - 1, 0), (s - 1, s - 1)}.
        \<exists>c. getpixel bm p = Some c \<and> alpha c = 0)"
  by (simp add: sizes_def create_icon_sizes pixel_simps)

theorem corners_transparent_witness:
  "(16::int) \<in> set sizes \<and>
   (\<exists>bm. create_icon (\<lambda>b r p. True) 16 = Inr bm \<and>
      (\<exists>c. getpixel bm (0, 0) = Some c \<and> alpha c = 0) \<and>
      (\<exists>c. getpixel bm (0, 15) = Some c \<and> alpha c = 0) \<and>
      (\<exists>c. getpixel bm (15, 0) = Some c \<and> alpha c = 0) \<and>
      (\<exists>c. getpixel bm (15, 15) = Some c \<and> alpha c = 0))"
proof -
  have a: "(16::int) \<in> set sizes" by (simp add: sizes_def)
  from corners_transparent [of "\<lambda>b r p. True"] a
  obtain bm where bm: "create_icon (\<lambda>b r p. True) 16 = Inr bm"
    and px: "\<forall>p \<in> {(0, 0), (0, 16 - 1), (16 - 1, 0), (16 - 1, 16 - 1)}.
        \<exists>c. getpixel bm p = Some c \<and> alpha c = 0"
    by blast
  from px have "(\<exists>c. getpixel bm (0, 0) = Some c \<and> alpha c = 0) \<and>
      (\<exists>c. getpixel bm (0, 15) = Some c \<and> alpha c = 0) \<and>
      (\<exists>c. getpixel bm (15, 0) = Some c \<and> alpha c = 0) \<and>
      (\<exists>c. getpixel bm (15, 15) = Some c \<and> alpha c = 0)"
    by simp
  with a bm show ?thesis by blast
qed

text \<open>
  Claim C6. For every size in 32, 48, 128, the test of source line 43 holds for the line
  indices 0 and 1 and fails for index 2, so \<^verbatim>\<open>create_icon\<close> draws exactly two accent
  lines: the returned bitmap is the note-card image with the boxes of line 0 and line 1
  filled, in this order.
\<close>

theorem two_accent_lines:
  "\<forall>s \<in> {32, 48, 128}.
     \<exists>L A img y0 y1 y2.
       draw_note shape s = Inr (L, img) \<and> lines_layout s L = Inr A \<and>
       line_y L A 0 = Inr y0 \<and> line_y L A 1 = Inr y1 \<and> line_y L A 2 = Inr y2 \<and>
       line_fits L A y0 \<and> line_fits L A y1 \<and> \<not> line_fits L A y2 \<and>
       create_icon shape s =
         Inr (rectangle (line_box A y1) ios_blue (rectangle (line_box A y0) ios_blue img))"
  by (simp add: create_icon_sizes draw_note_sizes lines_layout_32 lines_layout_48 lines_layout_128
      line_y_32 line_y_48 line_y_128 line_fits_def line_box_def)

text \<open>
  Claim C1 says that at size 128 all three accent lines fit. At size 128 the third line
  (index 2) has \<open>line_y = 85\<close> and height 8, and the note card ends at \<open>38 + 51 = 89\<close>:
  the test \<open>85 + 8 < 89\<close> fails.
\<close>

theorem three_lines_128_counterexample:
  "note_layout 128 = Inr \<lparr>margin = 16, radius = 21, note_margin = 32, note_width = 64,
       note_height = 51, note_x = 32, note_y = 38\<rparr> \<and>
   lines_layout 128 \<lparr>margin = 16, radius = 21, note_margin = 32, note_width = 64,
       note_height = 51, note_x = 32, note_y = 38\<rparr>
     = Inr \<lparr>line_height = 8, line_spacing = 16, line_width = 44, line_x = 41\<rparr> \<and>
   line_y \<lparr>margin = 16, radius = 21, note_margin = 32, note_width = 64,
       note_height = 51, note_x = 32, note_y = 38\<rparr>
     \<lparr>line_height = 8, line_spacing = 16, line_width = 44, line_x = 41\<rparr> 2 = Inr 85 \<and>
   \<not> line_fits \<lparr>margin = 16, radius = 21, note_margin = 32, note_width = 64,
       note_height = 51, note_x = 32, note_y = 38\<rparr>
     \<lparr>line_height = 8, line_spacing = 16, line_width = 44, line_x = 41\<rparr> 85"
  by (simp add: note_layout_128 lines_layout_128 line_y_128 line_fits_def)

text \<open>
  Claim C1, amended. At size 128 \<^verbatim>\<open>create_icon\<close> draws exactly two accent lines. Inside
  the note card (columns 32 to 96, rows 38 to 89) the returned bitmap is blue exactly on the
  two bands of columns 41 to 85 and rows 53 to 61 and 69 to 77, and white everywhere else;
  there is no third band.
\<close>

theorem two_bands_128:
  "\<exists>L bm. note_layout 128 = Inr L \<and> create_icon shape 128 = Inr bm \<and>
     (\<forall>x y. in_box (note_box L) (x, y) \<longrightarrow>
        getpixel bm (x, y) =
          Some (if 41 \<le> x \<and> x \<le> 85 \<and> (53 \<le> y \<and> y \<le> 61 \<or> 69 \<le> y \<and> y \<le> 77)
                then ios_blue else white))"
  by (auto simp add: note_layout_128 create_icon_128 note_box_def pixel_simps)

theorem two_bands_128_witness:
  "\<exists>L bm. note_layout 128 = Inr L \<and> create_icon (\<lambda>b r p. True) 128 = Inr bm \<and>
     in_box (note_box L) (50, 55) \<and> getpixel bm (50, 55) = Some ios_blue \<and>
     in_box (note_box L) (50, 65) \<and> getpixel bm (50, 65) = Some white \<and>
     in_box (note_box L) (50, 87) \<and> getpixel bm (50, 87) = Some white"
proof -
  from two_bands_128 [of "\<lambda>b r p. True"] obtain L bm where
    L: "note_layout 128 = Inr L" and bm: "create_icon (\<lambda>b r p. True) 128 = Inr bm" and
    px: "\<And>x y. in_box (note_box L) (x, y) \<Longrightarrow>
        getpixel bm (x, y) =
          Some (if 41 \<le> x \<and> x \<le> 85 \<and> (53 \<le> y \<and> y \<le> 61 \<or> 69 \<le> y \<and> y \<le> 77)
                then ios_blue else white)"
    by blast
  from L have nb: "note_box L = (32, 38, 96, 89)"
    by (auto simp add: note_layout_128 note_box_def)
  have b1: "in_box (note_box L) (50, 55)" and b2: "in_box (note_box L) (50, 65)"
    and b3: "in_box (note_box L) (50, 87)"
    by (simp_all add: nb in_box_def)
  from px [OF b1] px [OF b2] px [OF b3] L bm b1 b2 b3 show ?thesis by auto
qed

theorem two_accent_lines_witness:
  "(48::int) \<in> {32, 48, 128} \<and>
   (\<exists>L A img y0 y1 y2.
       draw_note (\<lambda>b r p. True) 48 = Inr (L, img) \<and> lines_layout 48 L = Inr A \<and>
       line_y L A 0 = Inr y0 \<and> line_y L A 1 = Inr y1 \<and> line_y L A 2 = Inr y2 \<and>
       line_fits L A y0 \<and> line_fits L A y1 \<and> \<not> line_fits L A y2 \<and>
       create_icon (\<lambda>b r p. True) 48 =
         Inr (rectangle (line_box A y1) ios_blue (rectangle (line_box A y0) ios_blue img)))"
proof -
  have a: "(48::int) \<in> {32, 48, 128}" by simp
  from two_accent_lines [of "\<lambda>b r p. True"] a show ?thesis by blast
qed

section \<open>The batch driver\<close>

lemma icons_dir_eq: "icons_dir = ''extension/assets/icons''"
  by (simp add: icons_dir_def path_join_def)

lemma icon_name_sizes:
  "icon_name 16 = ''icon16.png''" "icon_name 32 = ''icon32.png''"
  "icon_name 48 = ''icon48.png''" "icon_name 128 = ''icon128.png''"
  by (simp_all add: icon_name_def str_int_def str_nat.simps digit_char_def)

lemma icon_path_sizes:
  "path_join icons_dir (icon_name 16) = ''extension/assets/icons/icon16.png''"
  "path_join icons_dir (icon_name 32) = ''extension/assets/icons/icon32.png''"
  "path_join icons_dir (icon_name 48) = ''extension/assets/icons/icon48.png''"
  "path_join icons_dir (icon_name 128) = ''extension/assets/icons/icon128.png''"
  by (simp_all add: icons_dir_eq icon_name_sizes path_join_def)

lemma stdout_save_icon:
  "stdout (save_icon E dir sz w) = stdout w @ [report E dir sz]"
  by (simp add: save_icon_def report_def Let_def split: sum.splits option.splits)

lemma stdout_save_icons:
  "stdout (save_icons E dir szs w) = stdout w @ map (report E dir) szs"
  by (induction szs arbitrary: w) (simp_all add: stdout_save_icon)

lemma save_calls_save_icon:
  "save_calls (save_icon E dir sz w) =
     save_calls w @ (case create_icon (corners E) sz of Inl e \<Rightarrow> []
                     | Inr icon \<Rightarrow> [path_join dir (icon_name sz)])"
  by (simp add: save_icon_def Let_def split: sum.splits option.splits)

lemma files_save_icon:
  "files (save_icon E dir sz w) =
     (case create_icon (corners E) sz of
        Inl e \<Rightarrow> files w
      | Inr icon \<Rightarrow>
          (case save_error E (path_join dir (icon_name sz)) of
             Some e \<Rightarrow> files w
           | None \<Rightarrow> (files w)(path_join dir (icon_name sz) \<mapsto> icon)))"
  by (simp add: save_icon_def Let_def split: sum.splits option.splits)

lemma main_ok:
  assumes "makedirs_error E icons_dir = None"
  shows "main E w = Inr ((save_icons E icons_dir sizes w)
           \<lparr>stdout := stdout (save_icons E icons_dir sizes w) @
              [CHR 0x0A # ''Icons saved to: '' @ abspath E icons_dir]\<rparr>)"
  using assms by (simp add: main_def Let_def)

lemma save_calls_sizes:
  "save_calls (save_icons E icons_dir sizes w) =
     save_calls w @ map (\<lambda>s. path_join icons_dir (icon_name s)) sizes"
  by (simp add: sizes_def save_calls_save_icon create_icon_sizes)

lemma files_sizes:
  "files (save_icons E icons_dir sizes w) =
     (\<lambda>p. if p = ''extension/assets/icons/icon128.png''
               \<and> save_error E ''extension/assets/icons/icon128.png'' = None
            then Some (projr (create_icon (corners E) 128))
          else if p = ''extension/assets/icons/icon48.png''
               \<and> save_error E ''extension/assets/icons/icon48.png'' = None
            then Some (projr (create_icon (corners E) 48))
          else if p = ''extension/assets/icons/icon32.png''
               \<and> save_error E ''extension/assets/icons/icon32.png'' = None
            then Some (projr (create_icon (corners E) 32))
          else if p = ''extension/assets/icons/icon16.png''
               \<and> save_error E ''extension/assets/icons/icon16.png'' = None
            then Some (projr (create_icon (corners E) 16))
          else files w p)"
  by (rule ext)
     (simp add: sizes_def files_save_icon create_icon_sizes icon_path_sizes split: option.splits)

lemma report_eq:
  "report E dir s =
     (case create_icon (corners E) s of
        Inl e \<Rightarrow> [CHR 0xE2, CHR 0x9C, CHR 0x97] @ '' Failed to create icon'' @ str_int s
                   @ ''.png: '' @ str_error e
      | Inr icon \<Rightarrow>
          (case save_error E (path_join dir (''icon'' @ str_int s @ ''.png'')) of
             Some e \<Rightarrow> [CHR 0xE2, CHR 0x9C, CHR 0x97] @ '' Failed to create icon''
                         @ str_int s @ ''.png: '' @ str_error e
           | None \<Rightarrow> [CHR 0xE2, CHR 0x9C, CHR 0x93] @ '' Created icon'' @ str_int s
                       @ ''.png''))"
  by (simp add: report_def failed_message_def created_message_def icon_name_def
      split: sum.splits option.splits)

lemma save_calls_save_icons:
  "save_calls (save_icons E dir szs w) =
     save_calls w @
       concat (map (\<lambda>s. case create_icon (corners E) s of
                            Inl e \<Rightarrow> []
                          | Inr icon \<Rightarrow> [path_join dir (''icon'' @ str_int s @ ''.png'')]) szs)"
  by (induction szs arbitrary: w)
     (simp_all add: save_calls_save_icon icon_name_def split: sum.splits)

lemma files_save_icons:
  "files (save_icons E dir szs w) =
     fold (\<lambda>s f. case create_icon (corners E) s of
                    Inl e \<Rightarrow> f
                  | Inr icon \<Rightarrow>
                      (case save_error E (path_join dir (''icon'' @ str_int s @ ''.png'')) of
                         Some e \<Rightarrow> f
                       | None \<Rightarrow> f(path_join dir (''icon'' @ str_int s @ ''.png'') \<mapsto> icon)))
          szs (files w)"
  by (induction szs arbitrary: w)
     (simp_all add: files_save_icon icon_name_def split: sum.splits option.splits)

lemma main_eq:
  "main E w =
     (case makedirs_error E ''extension/assets/icons'' of
        Some e \<Rightarrow> Inl e
      | None \<Rightarrow>
          Inr ((save_icons E ''extension/assets/icons'' [16, 32, 48, 128] w)
                 \<lparr>stdout := stdout (save_icons E ''extension/assets/icons'' [16, 32, 48, 128] w)
                    @ [CHR 0x0A # ''Icons saved to: '' @ abspath E ''extension/assets/icons'']\<rparr>))"
  by (simp add: main_def Let_def icons_dir_eq sizes_def split: option.splits)

lemma create_icon_negative:
  "sz < 0 \<Longrightarrow> create_icon shape sz = Inl (ValueError ''Width and height must be >= 0'')"
  by (simp add: create_icon_def draw_note_def Image_new_def)

text \<open>
  Claim C9. The \<^verbatim>\<open>try\<close>/\<^verbatim>\<open>except\<close> of source lines 60 to 66 lies inside the loop body
  and covers both \<^verbatim>\<open>create_icon\<close> and \<^verbatim>\<open>icon.save\<close>. For the loop over any list of
  sizes, started in any directory and any world:

  \<^item> exactly one line is printed per size, in the order of the list: the failure line
    \<^verbatim>\<open>"<U+2717> Failed to create icon<size>.png: <message>"\<close> with the message of the
    exception when \<^verbatim>\<open>create_icon\<close> raises, the same line with the message of the
    exception of \<^verbatim>\<open>icon.save\<close> when the save raises, and
    \<^verbatim>\<open>"<U+2713> Created icon<size>.png"\<close> otherwise;
  \<^item> \<^verbatim>\<open>icon.save\<close> is called exactly once for each size whose icon was generated, in
    the order of the list, also after a failure (no abort, no second attempt);
  \<^item> the files written are those of the sizes for which nothing failed; a failure leaves
    the files as they were.

  \<^verbatim>\<open>main\<close> either fails in \<^verbatim>\<open>os.makedirs\<close>, before the loop, or runs this loop over
  16, 32, 48, 128 in \<^verbatim>\<open>extension/assets/icons\<close>, prints its last line and returns.
  The example after the theorem is a run of the loop in which the icon of one size
  cannot be generated and the icon of another cannot be saved, and a run of \<^verbatim>\<open>main\<close> in
  which the save of \<^verbatim>\<open>icon32.png\<close> alone fails: three files are written and one failure
  is reported, so partial success is a reachable final state.
\<close>

theorem batch_continues:
  "stdout (save_icons E dir szs w) =
     stdout w @
       map (\<lambda>s. case create_icon (corners E) s of
                   Inl e \<Rightarrow> [CHR 0xE2, CHR 0x9C, CHR 0x97] @ '' Failed to create icon''
                              @ str_int s @ ''.png: '' @ str_error e
                 | Inr icon \<Rightarrow>
                     (case save_error E (path_join dir (''icon'' @ str_int s @ ''.png'')) of
                        Some e \<Rightarrow> [CHR 0xE2, CHR 0x9C, CHR 0x97] @ '' Failed to create icon''
                                    @ str_int s @ ''.png: '' @ str_error e
                      | None \<Rightarrow> [CHR 0xE2, CHR 0x9C, CHR 0x93] @ '' Created icon''
                                  @ str_int s @ ''.png'')) szs \<and>
   save_calls (save_icons E dir szs w) =
     save_calls w @
       concat (map (\<lambda>s. case create_icon (corners E) s of
                            Inl e \<Rightarrow> []
                          | Inr icon \<Rightarrow> [path_join dir (''icon'' @ str_int s @ ''.png'')]) szs) \<and>
   files (save_icons E dir szs w) =
     fold (\<lambda>s f. case create_icon (corners E) s of
                    Inl e \<Rightarrow> f
                  | Inr icon \<Rightarrow>
                      (case save_error E (path_join dir (''icon'' @ str_int s @ ''.png'')) of
                         Some e \<Rightarrow> f
                       | None \<Rightarrow> f(path_join dir (''icon'' @ str_int s @ ''.png'') \<mapsto> icon)))
          szs (files w) \<and>
   main E w =
     (case makedirs_error E ''extension/assets/icons'' of
        Some e \<Rightarrow> Inl e
      | None \<Rightarrow>
          Inr ((save_icons E ''extension/assets/icons'' [16, 32, 48, 128] w)
                 \<lparr>stdout := stdout (save_icons E ''extension/assets/icons'' [16, 32, 48, 128] w)
                    @ [CHR 0x0A # ''Icons saved to: '' @ abspath E ''extension/assets/icons'']\<rparr>))"
proof (intro conjI)
  show "stdout (save_icons E dir szs w) =
     stdout w @
       map (\<lambda>s. case create_icon (corners E) s of
                   Inl e \<Rightarrow> [CHR 0xE2, CHR 0x9C, CHR 0x97] @ '' Failed to create icon''
                              @ str_int s @ ''.png: '' @ str_error e
                 | Inr icon \<Rightarrow>
                     (case save_error E (path_join dir (''icon'' @ str_int s @ ''.png'')) of
                        Some e \<Rightarrow> [CHR 0xE2, CHR 0x9C, CHR 0x97] @ '' Failed to create icon''
                                    @ str_int s @ ''.png: '' @ str_error e
                      | None \<Rightarrow> [CHR 0xE2, CHR 0x9C, CHR 0x93] @ '' Created icon''
                                  @ str_int s @ ''.png'')) szs"
    unfolding stdout_save_icons report_eq ..
qed (rule save_calls_save_icons files_save_icons main_eq)+

theorem batch_continues_witness:
  "stdout (save_icons
       \<lparr>corners = (\<lambda>b r p. True), makedirs_error = (\<lambda>d. None),
        save_error = (\<lambda>p. if p = ''extension/assets/icons/icon32.png''
                           then Some (OSError ''disk full'') else None),
        abspath = (\<lambda>p. p)\<rparr>
       ''extension/assets/icons'' [- 1, 16, 32, 48]
       \<lparr>files = Map.empty, stdout = [], save_calls = []\<rparr>) =
     [[CHR 0xE2, CHR 0x9C, CHR 0x97]
        @ '' Failed to create icon-1.png: Width and height must be >= 0'',
      [CHR 0xE2, CHR 0x9C, CHR 0x93] @ '' Created icon16.png'',
      [CHR 0xE2, CHR 0x9C, CHR 0x97] @ '' Failed to create icon32.png: disk full'',
      [CHR 0xE2, CHR 0x9C, CHR 0x93] @ '' Created icon48.png''] \<and>
   save_calls (save_icons
       \<lparr>corners = (\<lambda>b r p. True), makedirs_error = (\<lambda>d. None),
        save_error = (\<lambda>p. if p = ''extension/assets/icons/icon32.png''
                           then Some (OSError ''disk full'') else None),
        abspath = (\<lambda>p. p)\<rparr>
       ''extension/assets/icons'' [- 1, 16, 32, 48]
       \<lparr>files = Map.empty, stdout = [], save_calls = []\<rparr>) =
     [''extension/assets/icons/icon16.png'', ''extension/assets/icons/icon32.png'',
      ''extension/assets/icons/icon48.png''] \<and>
   dom (files (save_icons
       \<lparr>corners = (\<lambda>b r p. True), makedirs_error = (\<lambda>d. None),
        save_error = (\<lambda>p. if p = ''extension/assets/icons/icon32.png''
                           then Some (OSError ''disk full'') else None),
        abspath = (\<lambda>p. p)\<rparr>
       ''extension/assets/icons'' [- 1, 16, 32, 48]
       \<lparr>files = Map.empty, stdout = [], save_calls = []\<rparr>)) =
     {''extension/assets/icons/icon16.png'', ''extension/assets/icons/icon48.png''} \<and>
   map_sum id (\<lambda>w'. (stdout w', save_calls w', dom (files w')))
     (main
       \<lparr>corners = (\<lambda>b r p. True), makedirs_error = (\<lambda>d. None),
        save_error = (\<lambda>p. if p = ''extension/assets/icons/icon32.png''
                           then Some (OSError ''disk full'') else None),
        abspath = (\<lambda>p. p)\<rparr>
       \<lparr>files = Map.empty, stdout = [], save_calls = []\<rparr>) =
     Inr ([[CHR 0xE2, CHR 0x9C, CHR 0x93] @ '' Created icon16.png'',
           [CHR 0xE2, CHR 0x9C, CHR 0x97] @ '' Failed to create icon32.png: disk full'',
           [CHR 0xE2, CHR 0x9C, CHR 0x93] @ '' Created icon48.png'',
           [CHR 0xE2, CHR 0x9C, CHR 0x93] @ '' Created icon128.png'',
           CHR 0x0A # ''Icons saved to: extension/assets/icons''],
          [''extension/assets/icons/icon16.png'', ''extension/assets/icons/icon32.png'',
           ''extension/assets/icons/icon48.png'', ''extension/assets/icons/icon128.png''],
          {''extension/assets/icons/icon16.png'', ''extension/assets/icons/icon48.png'',
           ''extension/assets/icons/icon128.png''})"
proof -
  define E where "E =
     \<lparr>corners = (\<lambda>b r p. True), makedirs_error = (\<lambda>d. None),
      save_error = (\<lambda>p. if p = ''extension/assets/icons/icon32.png''
                         then Some (OSError ''disk full'') else None),
      abspath = (\<lambda>p. p)\<rparr>"
  define w :: world where "w = \<lparr>files = Map.empty, stdout = [], save_calls = []\<rparr>"
  have n: "str_int (- 1) = ''-1''" "str_int 16 = ''16''" "str_int 32 = ''32''"
    "str_int 48 = ''48''" "str_int 128 = ''128''"
    by (simp_all add: str_int_def str_nat.simps digit_char_def)
  have c: "create_icon (corners E) (- 1) = Inl (ValueError ''Width and height must be >= 0'')"
    by (simp add: create_icon_negative)
  have e: "save_error E ''extension/assets/icons/icon16.png'' = None"
    "save_error E ''extension/assets/icons/icon32.png'' = Some (OSError ''disk full'')"
    "save_error E ''extension/assets/icons/icon48.png'' = None"
    "save_error E ''extension/assets/icons/icon128.png'' = None"
    "makedirs_error E ''extension/assets/icons'' = None"
    "abspath E ''extension/assets/icons'' = ''extension/assets/icons''"
    by (simp_all add: E_def)
  have w: "stdout w = []" "save_calls w = []" "files w = Map.empty"
    by (simp_all add: w_def)
  note a = batch_continues [of E "''extension/assets/icons''" "[- 1, 16, 32, 48]" w]
  note b = batch_continues [of E "''extension/assets/icons''" "[16, 32, 48, 128]" w]
  have a1: "stdout (save_icons E ''extension/assets/icons'' [- 1, 16, 32, 48] w) =
     [[CHR 0xE2, CHR 0x9C, CHR 0x97]
        @ '' Failed to create icon-1.png: Width and height must be >= 0'',
      [CHR 0xE2, CHR 0x9C, CHR 0x93] @ '' Created icon16.png'',
      [CHR 0xE2, CHR 0x9C, CHR 0x97] @ '' Failed to create icon32.png: disk full'',
      [CHR 0xE2, CHR 0x9C, CHR 0x93] @ '' Created icon48.png'']"
    unfolding a [THEN conjunct1]
    by (simp add: c create_icon_sizes n path_join_def e w)
  have a2: "save_calls (save_icons E ''extension/assets/icons'' [- 1, 16, 32, 48] w) =
     [''extension/assets/icons/icon16.png'', ''extension/assets/icons/icon32.png'',
      ''extension/assets/icons/icon48.png'']"
    unfolding a [THEN conjunct2, THEN conjunct1]
    by (simp add: c create_icon_sizes n path_join_def w)
  have a3: "dom (files (save_icons E ''extension/assets/icons'' [- 1, 16, 32, 48] w)) =
     {''extension/assets/icons/icon16.png'', ''extension/assets/icons/icon48.png''}"
    unfolding a [THEN conjunct2, THEN conjunct2, THEN conjunct1]
    by (simp add: c create_icon_sizes n path_join_def e w insert_commute)
  define W where "W = save_icons E ''extension/assets/icons'' [16, 32, 48, 128] w"
  have b1: "stdout W =
     [[CHR 0xE2, CHR 0x9C, CHR 0x93] @ '' Created icon16.png'',
      [CHR 0xE2, CHR 0x9C, CHR 0x97] @ '' Failed to create icon32.png: disk full'',
      [CHR 0xE2, CHR 0x9C, CHR 0x93] @ '' Created icon48.png'',
      [CHR 0xE2, CHR 0x9C, CHR 0x93] @ '' Created icon128.png'']"
    unfolding W_def b [THEN conjunct1]
    by (simp add: create_icon_sizes n path_join_def e w)
  have b2: "save_calls W =
     [''extension/assets/icons/icon16.png'', ''extension/assets/icons/icon32.png'',
      ''extension/assets/icons/icon48.png'', ''extension/assets/icons/icon128.png'']"
    unfolding W_def b [THEN conjunct2, THEN conjunct1]
    by (simp add: create_icon_sizes n path_join_def w)
  have b3: "dom (files W) =
     {''extension/assets/icons/icon16.png'', ''extension/assets/icons/icon48.png'',
      ''extension/assets/icons/icon128.png''}"
    unfolding W_def b [THEN conjunct2, THEN conjunct2, THEN conjunct1]
    by (simp add: create_icon_sizes n path_join_def e w insert_commute)
  have m: "main E w = Inr (W\<lparr>stdout := stdout W @
      [CHR 0x0A # ''Icons saved to: extension/assets/icons'']\<rparr>)"
    unfolding W_def b [THEN conjunct2, THEN conjunct2, THEN conjunct2]
    by (simp only: e option.case append.simps)
  have b4: "map_sum id (\<lambda>w'. (stdout w', save_calls w', dom (files w'))) (main E w) =
     Inr ([[CHR 0xE2, CHR 0x9C, CHR 0x93] @ '' Created icon16.png'',
           [CHR 0xE2, CHR 0x9C, CHR 0x97] @ '' Failed to create icon32.png: disk full'',
           [CHR 0xE2, CHR 0x9C, CHR 0x93] @ '' Created icon48.png'',
           [CHR 0xE2, CHR 0x9C, CHR 0x93] @ '' Created icon128.png'',
           CHR 0x0A # ''Icons saved to: extension/assets/icons''],
          [''extension/assets/icons/icon16.png'', ''extension/assets/icons/icon32.png'',
           ''extension/assets/icons/icon48.png'', ''extension/assets/icons/icon128.png''],
          {''extension/assets/icons/icon16.png'', ''extension/assets/icons/icon48.png'',
           ''extension/assets/icons/icon128.png''})"
    by (simp add: m b1 b2 b3)
  from a1 a2 a3 b4 show ?thesis
    unfolding E_def w_def by (intro conjI)
qed

text \<open>
  Claim C3 says the icons are written into the directory \<^verbatim>\<open>assets/icons\<close>. In a run
  where nothing fails, the four paths handed to \<^verbatim>\<open>icon.save\<close> lie in
  \<^verbatim>\<open>extension/assets/icons\<close> (source line 53), and nothing is written at
  \<^verbatim>\<open>assets/icons/icon16.png\<close>.
\<close>

theorem output_directory_counterexample:
  "map_sum id (\<lambda>w. (save_calls w, files w ''assets/icons/icon16.png''))
     (main \<lparr>corners = (\<lambda>b r p. True), makedirs_error = (\<lambda>d. None),
            save_error = (\<lambda>p. None), abspath = (\<lambda>p. p)\<rparr>
           \<lparr>files = Map.empty, stdout = [], save_calls = []\<rparr>)
   = Inr ([''extension/assets/icons/icon16.png'', ''extension/assets/icons/icon32.png'',
           ''extension/assets/icons/icon48.png'', ''extension/assets/icons/icon128.png''],
          None)"
  by (simp add: main_ok save_calls_sizes files_sizes) (simp add: sizes_def icon_path_sizes)

text \<open>
  Claim C3, amended. When \<^verbatim>\<open>os.makedirs\<close> and the four calls of \<^verbatim>\<open>icon.save\<close>
  succeed, \<^verbatim>\<open>main\<close> writes exactly the four files \<^verbatim>\<open>icon16.png\<close>, \<^verbatim>\<open>icon32.png\<close>,
  \<^verbatim>\<open>icon48.png\<close>, \<^verbatim>\<open>icon128.png\<close>, into the directory \<^verbatim>\<open>extension/assets/icons\<close>
  relative to the working directory, and each file holds the icon of its size.
\<close>

theorem main_writes_four_files:
  assumes "makedirs_error E icons_dir = None"
    and "\<forall>s \<in> set sizes. save_error E (path_join icons_dir (icon_name s)) = None"
  shows "\<exists>w'. main E w = Inr w' \<and>
     dom (files w') = dom (files w) \<union>
       {''extension/assets/icons/icon16.png'', ''extension/assets/icons/icon32.png'',
        ''extension/assets/icons/icon48.png'', ''extension/assets/icons/icon128.png''} \<and>
     (\<forall>s \<in> set sizes. \<exists>bm. create_icon (corners E) s = Inr bm \<and>
        files w' (path_join icons_dir (icon_name s)) = Some bm)"
proof -
  from assms(2) have ok:
    "save_error E ''extension/assets/icons/icon16.png'' = None"
    "save_error E ''extension/assets/icons/icon32.png'' = None"
    "save_error E ''extension/assets/icons/icon48.png'' = None"
    "save_error E ''extension/assets/icons/icon128.png'' = None"
    by (simp_all add: sizes_def icon_path_sizes)
  define w' where "w' = (save_icons E icons_dir sizes w)
           \<lparr>stdout := stdout (save_icons E icons_dir sizes w) @
              [CHR 0x0A # ''Icons saved to: '' @ abspath E icons_dir]\<rparr>"
  have m: "main E w = Inr w'"
    using main_ok [OF assms(1)] by (simp add: w'_def)
  have f: "files w' = files (save_icons E icons_dir sizes w)"
    by (simp add: w'_def)
  have d: "dom (files w') = dom (files w) \<union>
       {''extension/assets/icons/icon16.png'', ''extension/assets/icons/icon32.png'',
        ''extension/assets/icons/icon48.png'', ''extension/assets/icons/icon128.png''}"
    by (auto simp add: f files_sizes ok dom_def)
  have s: "\<forall>s \<in> set sizes. \<exists>bm. create_icon (corners E) s = Inr bm \<and>
        files w' (path_join icons_dir (icon_name s)) = Some bm"
    by (simp add: f files_sizes ok) (simp add: sizes_def create_icon_sizes icon_path_sizes)
  from m d s show ?thesis by blast
qed

theorem main_writes_four_files_witness:
  "\<exists>w'. main \<lparr>corners = (\<lambda>b r p. True), makedirs_error = (\<lambda>d. None),
            save_error = (\<lambda>p. None), abspath = (\<lambda>p. p)\<rparr>
           \<lparr>files = Map.empty, stdout = [], save_calls = []\<rparr> = Inr w' \<and>
     dom (files w') =
       {''extension/assets/icons/icon16.png'', ''extension/assets/icons/icon32.png'',
        ''extension/assets/icons/icon48.png'', ''extension/assets/icons/icon128.png''}"
proof -
  define E where "E = \<lparr>corners = (\<lambda>b r p. True), makedirs_error = (\<lambda>d. None),
            save_error = (\<lambda>p. None), abspath = (\<lambda>p. p)\<rparr>"
  define w :: world where "w = \<lparr>files = Map.empty, stdout = [], save_calls = []\<rparr>"
  have a: "makedirs_error E icons_dir = None" by (simp add: E_def)
  have b: "\<forall>s \<in> set sizes. save_error E (path_join icons_dir (icon_name s)) = None"
    by (simp add: E_def)
  have e: "dom (files w) = {}" by (simp add: w_def)
  from main_writes_four_files [OF a b, of w] obtain w' where
    x: "main E w = Inr w' \<and>
     dom (files w') = dom (files w) \<union>
       {''extension/assets/icons/icon16.png'', ''extension/assets/icons/icon32.png'',
        ''extension/assets/icons/icon48.png'', ''extension/assets/icons/icon128.png''} \<and>
     (\<forall>s \<in> set sizes. \<exists>bm. create_icon (corners E) s = Inr bm \<and>
        files w' (path_join icons_dir (icon_name s)) = Some bm)" ..
  from x have m: "main E w = Inr w'" by (rule conjunct1)
  from x have d: "dom (files w') = dom (files w) \<union>
       {''extension/assets/icons/icon16.png'', ''extension/assets/icons/icon32.png'',
        ''extension/assets/icons/icon48.png'', ''extension/assets/icons/icon128.png''}"
    by (elim conjE)
  have d': "dom (files w') =
       {''extension/assets/icons/icon16.png'', ''extension/assets/icons/icon32.png'',
        ''extension/assets/icons/icon48.png'', ''extension/assets/icons/icon128.png''}"
    unfolding d e by (rule Un_empty_left)
  from m d' have "main E w = Inr w' \<and> dom (files w') =
       {''extension/assets/icons/icon16.png'', ''extension/assets/icons/icon32.png'',
        ''extension/assets/icons/icon48.png'', ''extension/assets/icons/icon128.png''}"
    by (rule conjI)
  then have "\<exists>w'. main E w = Inr w' \<and> dom (files w') =
       {''extension/assets/icons/icon16.png'', ''extension/assets/icons/icon32.png'',
        ''extension/assets/icons/icon48.png'', ''extension/assets/icons/icon128.png''}"
    by (rule exI [of _ w'])
  then show ?thesis
    by (simp only: E_def w_def)
qed

section \<open>Rounding a product to 53 bits\<close>

text \<open>
  The products \<^verbatim>\<open>n * 0.8\<close> and \<^verbatim>\<open>n * 0.3\<close> are rounded to 53 bits before \<^verbatim>\<open>int\<close>
  truncates them. For \<open>0 \<le> n < 2\<^sup>4\<^sup>9\<close> the result is nevertheless the floor of the exact
  product \<open>n \<cdot> 8 / 10\<close> or \<open>n \<cdot> 3 / 10\<close>: the double nearest to \<open>0.8\<close> lies above it and
  the one nearest to \<open>0.3\<close> below it, each too close to change the integer part.
\<close>

lemma round53_le_multiple:
  assumes "2 ^ (bit_length a - 53) dvd G" and "a \<le> G"
  shows "round53 a \<le> G"
proof -
  define s where "s = bit_length a - 53"
  define q where "q = a div 2 ^ s"
  define r where "r = a mod 2 ^ s"
  from assms(1) obtain c where c: "G = c * 2 ^ s"
    unfolding s_def by (auto simp: dvd_def mult.commute)
  have a: "a = q * 2 ^ s + r"
    using div_mult_mod_eq [of a "2 ^ s"] by (simp add: q_def r_def)
  have R: "round53 a =
      (if 2 ^ s < 2 * r \<or> (2 * r = 2 ^ s \<and> odd q) then q + 1 else q) * 2 ^ s"
    by (simp add: round53_def Let_def s_def q_def r_def)
  show ?thesis
  proof (cases "r = 0")
    case True
    with R have "round53 a = q * 2 ^ s" by simp
    with a True have "round53 a = a" by simp
    with assms(2) show ?thesis by simp
  next
    case False
    have "q < c"
    proof (rule ccontr)
      assume "\<not> q < c"
      then have "c \<le> q" by simp
      then have "c * 2 ^ s \<le> q * 2 ^ s" by (rule mult_le_mono1)
      with a False c have "G < a" by linarith
      with assms(2) show False by simp
    qed
    then have "q + 1 \<le> c" by simp
    then have "(q + 1) * 2 ^ s \<le> c * 2 ^ s" by (rule mult_le_mono1)
    moreover from R have "round53 a \<le> (q + 1) * 2 ^ s" by simp
    ultimately show ?thesis unfolding c by (rule order_trans [rotated])
  qed
qed

lemma round53_eq_multiple:
  assumes "2 ^ (bit_length a - 53) dvd G" and "a \<le> G"
    and "2 * (G - a) < 2 ^ (bit_length a - 53)"
  shows "round53 a = G"
proof (cases "a = G")
  case True
  from assms(1) have "G \<le> round53 a" unfolding True [symmetric]
    by (rule round53_ge_multiple) simp
  moreover from assms(1,2) have "round53 a \<le> G" by (rule round53_le_multiple)
  ultimately show ?thesis by simp
next
  case False
  define s where "s = bit_length a - 53"
  define q where "q = a div 2 ^ s"
  define r where "r = a mod 2 ^ s"
  from assms(1) obtain c where c: "G = c * 2 ^ s"
    unfolding s_def by (auto simp: dvd_def mult.commute)
  have a: "a = q * 2 ^ s + r"
    using div_mult_mod_eq [of a "2 ^ s"] by (simp add: q_def r_def)
  have r: "r < 2 ^ s" by (simp add: r_def)
  from False assms(2) have lt: "a < G" by simp
  from assms(3) have close: "2 * (G - a) < 2 ^ s" by (simp add: s_def)
  have "q < c"
  proof (rule ccontr)
    assume "\<not> q < c"
    then have "c \<le> q" by simp
    then have "c * 2 ^ s \<le> q * 2 ^ s" by (rule mult_le_mono1)
    with a c have "G \<le> a" by linarith
    with lt show False by simp
  qed
  moreover have "c \<le> q + 1"
  proof (rule ccontr)
    assume "\<not> c \<le> q + 1"
    then have "q + 2 \<le> c" by simp
    then have "(q + 2) * 2 ^ s \<le> c * 2 ^ s" by (rule mult_le_mono1)
    then have "q * 2 ^ s + 2 * 2 ^ s \<le> G" unfolding c by (simp only: add_mult_distrib)
    with a r have "2 ^ s < G - a" by simp
    with close show False by simp
  qed
  ultimately have cq: "c = q + 1" by simp
  then have G: "G = q * 2 ^ s + 2 ^ s" unfolding c by (simp add: add_mult_distrib)
  have R: "round53 a =
      (if 2 ^ s < 2 * r \<or> (2 * r = 2 ^ s \<and> odd q) then q + 1 else q) * 2 ^ s"
    by (simp add: round53_def Let_def s_def q_def r_def)
  from close a have "2 ^ s < 2 * r" unfolding G by simp
  with R have "round53 a = (q + 1) * 2 ^ s" by simp
  then show ?thesis by (simp add: G)
qed

lemma round53_le_pow2:
  assumes "a \<le> 2 ^ n"
  shows "round53 a \<le> 2 ^ n"
proof (rule round53_le_multiple [OF _ assms])
  have "a < 2 ^ (n + 1)" using assms by (simp add: order_le_less_trans)
  then have "bit_length a \<le> n + 1" by (rule bit_length_le)
  then have "bit_length a - 53 \<le> n" by simp
  then show "(2::nat) ^ (bit_length a - 53) dvd 2 ^ n" by (rule le_imp_power_dvd)
qed

lemma round53_ge_pow2:
  assumes "2 ^ n \<le> a"
  shows "2 ^ n \<le> round53 a"
proof (cases "bit_length a - 53 \<le> n")
  case True
  then have "(2::nat) ^ (bit_length a - 53) dvd 2 ^ n" by (rule le_imp_power_dvd)
  then show ?thesis using assms by (rule round53_ge_multiple)
next
  case False
  define s where "s = bit_length a - 53"
  from False have s: "n < s" "0 < bit_length a - 53" by (simp_all add: s_def)
  from round53_shift_le [OF s(2)] have "2 ^ (s + 52) \<le> a" by (simp add: s_def)
  moreover have "(2::nat) ^ s \<le> 2 ^ (s + 52)" by simp
  ultimately have "2 ^ s \<le> a" by (rule order_trans [rotated])
  moreover have "(2::nat) ^ s dvd 2 ^ s" by simp
  ultimately have "2 ^ s \<le> round53 a" unfolding s_def by (rule round53_ge_multiple [rotated])
  moreover from s(1) have "(2::nat) ^ n \<le> 2 ^ s"
    by (intro power_increasing) simp_all
  ultimately show ?thesis by (rule order_trans [rotated])
qed

lemma round53_product_0_8:
  assumes "a < 2 ^ 49"
  shows "round53 (a * 3602879701896397) div 2 ^ 52 = (a * 8) div 10"
proof -
  define A where "A = a * 3602879701896397"
  define F where "F = (a * 8) div 10"
  define G where "G = F * 2 ^ 52"
  define s where "s = bit_length A - 53"
  have F1: "10 * F \<le> a * 8" and F2: "a * 8 < 10 * F + 10"
    unfolding F_def by (simp_all add: div_mult_mod_eq [symmetric] del: div_mult_mod_eq)
  have "A < 2 ^ 101" using assms unfolding A_def by simp
  then have "bit_length A \<le> 101" by (rule bit_length_le)
  then have s48: "s \<le> 48" by (simp add: s_def)
  then have "(2::nat) ^ s \<le> 2 ^ 48" by (intro power_increasing) simp_all
  then have p: "(2::nat) ^ s \<le> 281474976710656" by simp
  from s48 have "s \<le> 52" by simp
  then have "(2::nat) ^ s dvd 2 ^ 52" by (rule le_imp_power_dvd)
  then have dv: "2 ^ (bit_length A - 53) dvd G" unfolding G_def s_def by (rule dvd_mult)
  have GA: "G \<le> A" using F1 unfolding G_def A_def by simp
  from dv GA have lo: "G \<le> round53 A" by (rule round53_ge_multiple)
  have "round53 A \<le> A + 2 ^ s" unfolding s_def by (rule round53_le)
  also have "\<dots> < G + 2 ^ 52" using F2 p assms unfolding G_def A_def by simp
  finally have hi: "round53 A < G + 2 ^ 52" .
  have "round53 A div 2 ^ 52 = F"
  proof (rule div_nat_eqI)
    show "2 ^ 52 * F \<le> round53 A" using lo by (simp add: G_def)
    show "round53 A < 2 ^ 52 * Suc F" using hi by (simp add: G_def)
  qed
  then show ?thesis by (simp add: A_def F_def)
qed

lemma round53_product_0_3:
  assumes "a < 2 ^ 49"
  shows "round53 (a * 5404319552844595) div 2 ^ 54 = (a * 3) div 10"
proof -
  define A where "A = a * 5404319552844595"
  define F where "F = (a * 3) div 10"
  define \<rho> where "\<rho> = (a * 3) mod 10"
  define G where "G = F * 2 ^ 54"
  define s where "s = bit_length A - 53"
  have F: "10 * F + \<rho> = a * 3" and \<rho>: "\<rho> < 10"
    unfolding F_def \<rho>_def by simp_all
  have a: "a < 562949953421312" using assms by simp
  have "A < 2 ^ 102" using assms unfolding A_def by simp
  then have "bit_length A \<le> 102" by (rule bit_length_le)
  then have s49: "s \<le> 49" by (simp add: s_def)
  then have "(2::nat) ^ s \<le> 2 ^ 49" by (intro power_increasing) simp_all
  then have p: "(2::nat) ^ s \<le> 562949953421312" by simp
  from s49 have "s \<le> 54" by simp
  then have "(2::nat) ^ s dvd 2 ^ 54" by (rule le_imp_power_dvd)
  then have dv: "2 ^ (bit_length A - 53) dvd G" unfolding G_def s_def by (rule dvd_mult)
  have "G \<le> round53 A \<and> round53 A < G + 2 ^ 54"
  proof (cases "\<rho> = 0")
    case True
    with F have GA: "A \<le> G" and d: "10 * (G - A) = 2 * a"
      unfolding G_def A_def by simp_all
    have "a < 2 * 2 ^ s"
    proof (cases "A = 0")
      case True
      then show ?thesis by (simp add: A_def)
    next
      case False
      then have "A < 2 ^ bit_length A" by (intro bit_length_bounds) simp
      also have "\<dots> \<le> 2 ^ (s + 53)" by (intro power_increasing) (simp_all add: s_def)
      finally have "A < 2 ^ s * 9007199254740992" by (simp add: power_add)
      then have "a * 5404319552844595 < 2 ^ s * 9007199254740992" by (simp add: A_def)
      then show ?thesis by linarith
    qed
    with d have "2 * (G - A) < 2 ^ s" by linarith
    then have "2 * (G - A) < 2 ^ (bit_length A - 53)" by (simp add: s_def)
    with dv GA have "round53 A = G" by (rule round53_eq_multiple)
    then show ?thesis by simp
  next
    case False
    with F a have GA: "G \<le> A" unfolding G_def A_def by simp
    from dv GA have lo: "G \<le> round53 A" by (rule round53_ge_multiple)
    have "round53 A \<le> A + 2 ^ s" unfolding s_def by (rule round53_le)
    also have "\<dots> < G + 2 ^ 54" using F \<rho> p unfolding G_def A_def by simp
    finally have "round53 A < G + 2 ^ 54" .
    with lo show ?thesis by simp
  qed
  then have lo: "G \<le> round53 A" and hi: "round53 A < G + 2 ^ 54" by simp_all
  have "round53 A div 2 ^ 54 = F"
  proof (rule div_nat_eqI)
    show "2 ^ 54 * F \<le> round53 A" using lo by (simp add: G_def)
    show "round53 A < 2 ^ 54 * Suc F" using hi by (simp add: G_def)
  qed
  then show ?thesis by (simp add: A_def F_def)
qed

lemma float_of_int_exact:
  assumes "0 \<le> n" and "n < 2 ^ 53"
  shows "float_of_int n = Inr (Dyadic n 0)"
proof -
  have "nat \<bar>n\<bar> < 2 ^ 53" using assms by (simp add: nat_less_iff)
  then have r: "round53 (nat \<bar>n\<bar>) = nat \<bar>n\<bar>" by (rule round53_exact)
  have "nat \<bar>n\<bar> < 2 ^ 1024" using assms by (simp add: nat_less_iff)
  moreover have "sgn n * int (nat \<bar>n\<bar>) = n" using assms by (simp add: sgn_if)
  ultimately show ?thesis by (simp add: float_of_int_def r)
qed

lemma int_of_product_nonneg:
  assumes "0 \<le> n" and "n < 2 ^ 53" and "0 < M"
    and "round53 (nat n * nat M) div 2 ^ k = F" and "F < 2 ^ 1024"
  shows "int_of_product n (Dyadic M k) = Inr (int F)"
proof (cases "n = 0")
  case True
  with assms(4) have "F = 0" by (simp add: round53_def Let_def bit_length_0)
  with True show ?thesis
    by (simp add: int_of_product_def float_of_int_def round53_def Let_def bit_length_0)
next
  case False
  with assms have pos: "0 < n * M" by simp
  then have sg: "sgn (n * M) = 1" by simp
  have ab: "nat \<bar>n * M\<bar> = nat n * nat M" using assms pos by (simp add: nat_mult_distrib)
  from assms(5) have lt: "\<not> 2 ^ 1024 \<le> F" by simp
  from assms(4) have z: "F = 0 \<or> 0 < round53 (nat n * nat M)"
    by (cases "round53 (nat n * nat M) = 0") auto
  show ?thesis
    using lt z
    by (simp add: int_of_product_def float_of_int_exact [OF assms(1,2)] sg ab assms(4))
qed

lemma int_of_product_0_8:
  assumes "0 \<le> n" and "n < 2 ^ 49"
  shows "int_of_product n float_0_8 = Inr ((n * 8) div 10)"
proof -
  have a: "nat n < 2 ^ 49" using assms by (simp add: nat_less_iff)
  have n: "n < 2 ^ 53" using assms(2) by simp
  have r: "round53 (nat n * nat 3602879701896397) div 2 ^ 52 = (nat n * 8) div 10"
    using round53_product_0_8 [OF a] by simp
  have "(nat n * 8) div 10 \<le> nat n * 8" by (rule div_le_dividend)
  also have "\<dots> < 2 ^ 1024" using a by simp
  finally have b: "(nat n * 8) div 10 < 2 ^ 1024" .
  have "int_of_product n (Dyadic 3602879701896397 52) = Inr (int ((nat n * 8) div 10))"
    using assms(1) n _ r b by (rule int_of_product_nonneg) simp
  moreover have "int ((nat n * 8) div 10) = (n * 8) div 10"
    using assms(1) by (simp add: zdiv_int)
  ultimately show ?thesis by (simp add: float_0_8_def)
qed

lemma int_of_product_0_3:
  assumes "0 \<le> n" and "n < 2 ^ 49"
  shows "int_of_product n float_0_3 = Inr ((n * 3) div 10)"
proof -
  have a: "nat n < 2 ^ 49" using assms by (simp add: nat_less_iff)
  have n: "n < 2 ^ 53" using assms(2) by simp
  have r: "round53 (nat n * nat 5404319552844595) div 2 ^ 54 = (nat n * 3) div 10"
    using round53_product_0_3 [OF a] by simp
  have "(nat n * 3) div 10 \<le> nat n * 3" by (rule div_le_dividend)
  also have "\<dots> < 2 ^ 1024" using a by simp
  finally have b: "(nat n * 3) div 10 < 2 ^ 1024" .
  have "int_of_product n (Dyadic 5404319552844595 54) = Inr (int ((nat n * 3) div 10))"
    using assms(1) n _ r b by (rule int_of_product_nonneg) simp
  moreover have "int ((nat n * 3) div 10) = (n * 3) div 10"
    using assms(1) by (simp add: zdiv_int)
  ultimately show ?thesis by (simp add: float_0_3_def)
qed

lemma float_of_int_overflow:
  assumes "2 ^ 1024 \<le> \<bar>n\<bar>"
  shows "float_of_int n = Inl (OverflowError ''int too large to convert to float'')"
proof -
  have "(2::nat) ^ 1024 \<le> nat \<bar>n\<bar>" using assms by (simp add: le_nat_iff)
  then have "2 ^ 1024 \<le> round53 (nat \<bar>n\<bar>)" by (rule round53_ge_pow2)
  then show ?thesis by (simp add: float_of_int_def)
qed

lemma int_of_product_overflow:
  "2 ^ 1024 \<le> \<bar>n\<bar> \<Longrightarrow>
     int_of_product n c = Inl (OverflowError ''int too large to convert to float'')"
  by (simp add: int_of_product_def float_of_int_overflow)

lemma int_of_product_total:
  assumes "\<bar>n\<bar> \<le> 2 ^ 1023" and "\<bar>M\<bar> \<le> 2 ^ k"
  shows "\<exists>v. int_of_product n (Dyadic M k) = Inr v \<and> \<bar>v\<bar> \<le> 2 ^ 1023 \<and>
    (0 \<le> n \<longrightarrow> 0 \<le> M \<longrightarrow> 0 \<le> v)"
proof -
  define f where "f = round53 (nat \<bar>n\<bar>)"
  define g where "g = sgn n * int f"
  define R where "R = round53 (nat \<bar>g * M\<bar>)"
  define t where "t = nat \<bar>sgn (g * M) * int R\<bar> div 2 ^ k"
  have "nat \<bar>n\<bar> \<le> 2 ^ 1023" using assms(1) by (simp add: nat_le_iff)
  then have f: "f \<le> 2 ^ 1023" unfolding f_def by (rule round53_le_pow2)
  then have "\<not> 2 ^ 1024 \<le> f" by simp
  then have fl: "float_of_int n = Inr (Dyadic g 0)"
    by (simp add: float_of_int_def f_def [symmetric] g_def)
  have "\<bar>g\<bar> \<le> int f" by (simp add: g_def abs_mult sgn_if)
  also have "\<dots> \<le> 2 ^ 1023" using f by (simp add: of_nat_le_iff [symmetric] del: of_nat_le_iff)
  finally have g: "\<bar>g\<bar> \<le> 2 ^ 1023" .
  have "\<bar>g * M\<bar> = \<bar>g\<bar> * \<bar>M\<bar>" by (rule abs_mult)
  also have "\<dots> \<le> 2 ^ 1023 * 2 ^ k" using g assms(2) by (intro mult_mono) simp_all
  finally have "\<bar>g * M\<bar> \<le> 2 ^ (1023 + k)" by (simp add: power_add)
  then have "nat \<bar>g * M\<bar> \<le> 2 ^ (1023 + k)" by (simp add: nat_le_iff)
  then have R: "R \<le> 2 ^ (1023 + k)" unfolding R_def by (rule round53_le_pow2)
  have "t \<le> R div 2 ^ k"
    unfolding t_def by (intro div_le_mono) (simp add: abs_mult sgn_if)
  also have "\<dots> \<le> 2 ^ (1023 + k) div 2 ^ k" using R by (rule div_le_mono)
  also have "\<dots> = 2 ^ 1023" by (simp add: power_add)
  finally have t: "t \<le> 2 ^ 1023" .
  then have nt: "\<not> 2 ^ 1024 \<le> t" by simp
  have v: "int_of_product n (Dyadic M k) = Inr (sgn (sgn (g * M) * int R) * int t)"
    using nt by (simp add: int_of_product_def fl R_def [symmetric] t_def [symmetric] Let_def)
  have "\<bar>sgn (sgn (g * M) * int R) * int t\<bar> \<le> int t" by (simp add: abs_mult sgn_if)
  also have "\<dots> \<le> 2 ^ 1023" using t by (simp add: of_nat_le_iff [symmetric] del: of_nat_le_iff)
  finally have b: "\<bar>sgn (sgn (g * M) * int R) * int t\<bar> \<le> 2 ^ 1023" .
  have "0 \<le> sgn (sgn (g * M) * int R) * int t" if "0 \<le> n" and "0 \<le> M"
  proof -
    from that(1) have "0 \<le> g" by (simp add: g_def sgn_if)
    with that(2) have "0 \<le> g * M" by simp
    then have "0 \<le> sgn (g * M) * int R" by (simp add: sgn_if)
    then show ?thesis by (simp add: sgn_if)
  qed
  with v b show ?thesis by simp
qed

section \<open>The layout at every size\<close>

lemma floor_mul_0_8: "\<lfloor>real_of_int n * 0.8\<rfloor> = (n * 8) div 10"
proof -
  have "real_of_int n * 0.8 = real_of_int (n * 8) / real_of_int 10" by simp
  then show ?thesis by (simp only: floor_divide_of_int_eq)
qed

lemma floor_mul_0_3: "\<lfloor>real_of_int n * 0.3\<rfloor> = (n * 3) div 10"
proof -
  have "real_of_int n * 0.3 = real_of_int (n * 3) / real_of_int 10" by simp
  then show ?thesis by (simp only: floor_divide_of_int_eq)
qed

lemma floor_div_numeral: "\<lfloor>real_of_int n / numeral k\<rfloor> = n div numeral k"
proof -
  have "real_of_int n / numeral k = real_of_int n / real_of_int (numeral k)" by simp
  then show ?thesis by (simp only: floor_divide_of_int_eq)
qed

lemma spec_layout_eq:
  "spec_layout sz =
     \<lparr>margin = max 1 (sz div 8), radius = max 2 (sz div 6), note_margin = max 2 (sz div 4),
      note_width = sz - max 2 (sz div 4) * 2,
      note_height = ((sz - max 2 (sz div 4) * 2) * 8) div 10,
      note_x = max 2 (sz div 4),
      note_y = (sz - ((sz - max 2 (sz div 4) * 2) * 8) div 10) div 2\<rparr>"
  by (simp only: spec_layout_def spec_margin_def spec_radius_def spec_note_margin_def
      spec_note_width_def spec_note_height_def spec_note_x_def spec_note_y_def
      floor_mul_0_8 floor_div_numeral mult.commute [of 2])

lemma note_width_bounds:
  fixes sz :: int
  assumes "4 \<le> sz" and "sz < 2 ^ 49"
  shows "0 \<le> sz - max 2 (sz div 4) * 2" and "sz - max 2 (sz div 4) * 2 < 2 ^ 49"
proof -
  from assms(1) have a: "sz div 4 * 2 \<le> sz" "0 \<le> sz div 4" by presburger+
  from a assms(1) show "0 \<le> sz - max 2 (sz div 4) * 2" by (simp add: max_def)
  from a assms(2) show "sz - max 2 (sz div 4) * 2 < 2 ^ 49" by (simp add: max_def)
qed

lemma note_layout_general:
  assumes "4 \<le> sz" and "sz < 2 ^ 49"
  shows "note_layout sz = Inr (spec_layout sz)"
  unfolding spec_layout_eq
  by (simp add: note_layout_def Let_def int_of_product_0_8 [OF note_width_bounds [OF assms]])

lemma spec_layout_bounds:
  assumes "4 \<le> sz" and "sz < 2 ^ 49"
  shows "0 \<le> note_width (spec_layout sz)" and "note_width (spec_layout sz) < 2 ^ 49"
    and "0 \<le> note_height (spec_layout sz)" and "note_height (spec_layout sz) < 2 ^ 49"
    and "margin (spec_layout sz) \<le> sz - margin (spec_layout sz)"
proof -
  note b = note_width_bounds [OF assms]
  show "0 \<le> note_width (spec_layout sz)" "note_width (spec_layout sz) < 2 ^ 49"
    using b by (simp_all add: spec_layout_eq)
  show "0 \<le> note_height (spec_layout sz)"
    using b(1) by (simp add: spec_layout_eq)
  have "((sz - max 2 (sz div 4) * 2) * 8) div 10 \<le> sz - max 2 (sz div 4) * 2"
    using b(1) by simp
  with b(2) show "note_height (spec_layout sz) < 2 ^ 49"
    by (simp add: spec_layout_eq)
  from assms(1) have "2 * (sz div 8) \<le> sz" by presburger
  with assms(1) show "margin (spec_layout sz) \<le> sz - margin (spec_layout sz)"
    by (simp add: spec_layout_eq max_def)
qed

lemma note_card_general:
  assumes "4 \<le> sz" and "sz < 2 ^ 49"
  shows "note_card shape sz img0 =
    Inr (spec_layout sz,
         rectangle (spec_note_box sz) white
           (rounded_rectangle shape (spec_badge_box sz) (spec_radius sz) ios_blue img0))"
proof -
  note b = spec_layout_bounds [OF assms]
  have m: "max 1 (sz div 8) = spec_margin sz" "max 2 (sz div 6) = spec_radius sz"
    by (simp_all add: spec_margin_def spec_radius_def floor_div_numeral)
  have s: "margin (spec_layout sz) = spec_margin sz" "note_x (spec_layout sz) = spec_note_x sz"
    "note_y (spec_layout sz) = spec_note_y sz" "note_width (spec_layout sz) = spec_note_width sz"
    "note_height (spec_layout sz) = spec_note_height sz"
    by (simp_all add: spec_layout_def)
  have c1: "check_box (spec_badge_box sz) = None"
    using b(5) by (simp add: check_box_def spec_badge_box_def s)
  have c2: "check_box (spec_note_box sz) = None"
    using b(1,3) by (simp add: check_box_def spec_note_box_def s)
  have n: "note_box (spec_layout sz) = spec_note_box sz"
    by (simp add: note_box_def spec_note_box_def s)
  show ?thesis
    using c1 c2
    by (simp add: note_card_def Let_def m draw_rounded_rectangle_def draw_rectangle_def
        note_layout_general [OF assms] n spec_badge_box_def)
qed

lemma lines_layout_general:
  assumes "0 \<le> note_width L" and "note_width L < 2 ^ 49"
  shows "\<exists>A. lines_layout sz L = Inr A \<and> line_height A = max 1 (sz div 16) \<and>
    line_spacing A = max 2 (sz div 8) \<and> 0 \<le> line_width A"
proof -
  have "note_width L \<le> 2 ^ 1023"
    using assms(2) by (rule less_imp_le [OF less_le_trans]) simp
  with assms(1) have a: "\<bar>note_width L\<bar> \<le> 2 ^ 1023" by simp
  have "\<bar>3152519739159347 :: int\<bar> \<le> 2 ^ 52" by simp
  from int_of_product_total [OF a this] assms(1)
  obtain lw where lw: "int_of_product (note_width L) float_0_7 = Inr lw" "0 \<le> lw"
    by (auto simp add: float_0_7_def)
  have "\<bar>5404319552844595 :: int\<bar> \<le> 2 ^ 55" by simp
  from int_of_product_total [OF a this]
  obtain t where t: "int_of_product (note_width L) float_0_15 = Inr t"
    by (auto simp add: float_0_15_def)
  show ?thesis by (simp add: lines_layout_def Let_def lw t)
qed

lemma line_y_general:
  assumes "0 \<le> note_height L" and "note_height L < 2 ^ 49"
  shows "line_y L A i = Inr (spec_line_y L A i)"
  by (simp only: line_y_def int_of_product_0_3 [OF assms] spec_line_y_def floor_mul_0_3
      sum.case)

lemma draw_lines_general:
  assumes "\<And>i. line_y L A i = Inr (spec_line_y L A i)"
    and "0 \<le> line_width A" and "0 \<le> line_height A"
  shows "draw_lines L A js img =
    Inr (fold (\<lambda>i im. if spec_line_fits L A i then rectangle (spec_line_box L A i) ios_blue im
                        else im) js img)"
  using assms(2,3)
  by (induction js arbitrary: img)
     (simp_all add: assms(1) draw_rectangle_def check_box_def line_box_def line_fits_def
        spec_line_fits_def spec_line_box_def)

lemma note_lines_general:
  assumes "32 \<le> sz" and "0 \<le> note_width L" and "note_width L < 2 ^ 49"
    and "0 \<le> note_height L" and "note_height L < 2 ^ 49"
  shows "\<exists>A. lines_layout sz L = Inr A \<and> (\<forall>i. line_y L A i = Inr (spec_line_y L A i)) \<and>
    note_lines sz L img = Inr (spec_lines L A img)"
proof -
  from lines_layout_general [OF assms(2,3), of sz] obtain A where
    A: "lines_layout sz L = Inr A" "line_height A = max 1 (sz div 16)" "0 \<le> line_width A"
    by blast
  have h: "0 \<le> line_height A" by (simp add: A(2))
  have y: "line_y L A i = Inr (spec_line_y L A i)" for i
    by (rule line_y_general [OF assms(4,5)])
  have "note_lines sz L img = Inr (spec_lines L A img)"
    using assms(1)
    by (simp only: note_lines_def A(1) if_True sum.case spec_lines_def
        draw_lines_general [of L A, OF y A(3) h])
  with A(1) y show ?thesis by blast
qed

lemma width_spec_lines: "width (spec_lines L A img) = width img"
  by (simp add: spec_lines_def rectangle_def)

lemma height_spec_lines: "height (spec_lines L A img) = height img"
  by (simp add: spec_lines_def rectangle_def)

lemma spec_values:
  "spec_note_x sz = max 2 (sz div 4)"
  "spec_note_width sz = sz - max 2 (sz div 4) * 2"
  "spec_note_height sz = ((sz - max 2 (sz div 4) * 2) * 8) div 10"
  "spec_note_y sz = (sz - ((sz - max 2 (sz div 4) * 2) * 8) div 10) div 2"
  by (simp_all only: spec_note_margin_def spec_note_width_def spec_note_height_def
      spec_note_x_def spec_note_y_def floor_mul_0_8 floor_div_numeral mult.commute [of 2])

lemma note_corner_inside:
  fixes sz :: int
  assumes "4 \<le> sz"
  shows "0 \<le> spec_note_x sz" and "spec_note_x sz < sz"
    and "0 \<le> spec_note_y sz" and "spec_note_y sz < sz"
    and "0 \<le> spec_note_width sz" and "0 \<le> spec_note_height sz"
proof -
  define nw where "nw = sz - max 2 (sz div 4) * 2"
  define nh where "nh = (nw * 8) div 10"
  from assms have a: "sz div 4 * 2 \<le> sz" "0 \<le> sz div 4" "sz div 4 < sz" by presburger+
  from a assms have w: "0 \<le> nw" "nw \<le> sz" by (simp_all add: nw_def max_def)
  from w(1) have h: "0 \<le> nh" "nh \<le> nw" unfolding nh_def by presburger+
  from a(3) assms show "0 \<le> spec_note_x sz" "spec_note_x sz < sz"
    by (simp_all add: spec_values max_def)
  from w h assms have "0 \<le> (sz - nh) div 2" "(sz - nh) div 2 < sz"
    by presburger+
  then show "0 \<le> spec_note_y sz" "spec_note_y sz < sz"
    by (simp_all add: spec_values nw_def nh_def)
  from w(1) show "0 \<le> spec_note_width sz" by (simp add: spec_values nw_def)
  from h(1) show "0 \<le> spec_note_height sz" by (simp add: spec_values nw_def nh_def)
qed

lemma first_line_below:
  fixes sz :: int
  assumes "32 \<le> sz"
  shows "1 \<le> (spec_note_height sz * 3) div 10"
proof -
  define nw where "nw = sz - max 2 (sz div 4) * 2"
  define nh where "nh = (nw * 8) div 10"
  from assms have "16 \<le> sz - sz div 4 * 2" "2 \<le> sz div 4" by presburger+
  then have "16 \<le> nw" by (simp add: nw_def max_def)
  then have "12 \<le> nh" unfolding nh_def by presburger
  then have "1 \<le> (nh * 3) div 10" by presburger
  then show ?thesis unfolding spec_values nh_def nw_def .
qed

lemma note_corner_white:
  assumes "4 \<le> sz" and "sz < 2 ^ 49" and "width img0 = sz" and "height img0 = sz"
    and "note_card shape sz img0 = Inr (L, img1)" and "note_lines sz L img1 = Inr img"
  shows "getpixel img (spec_note_x sz, spec_note_y sz) = Some white"
proof -
  note c = note_corner_inside [OF assms(1)]
  from assms(5) have L: "L = spec_layout sz"
    and i1: "img1 = rectangle (spec_note_box sz) white
      (rounded_rectangle shape (spec_badge_box sz) (spec_radius sz) ios_blue img0)"
    by (simp_all add: note_card_general [OF assms(1,2)])
  have d: "width img1 = sz" "height img1 = sz"
    by (simp_all add: i1 rectangle_def rounded_rectangle_def assms(3,4))
  have p1: "pixels img1 (spec_note_x sz, spec_note_y sz) = white"
    using c by (simp add: i1 rectangle_def rounded_rectangle_def inside_def in_box_def
        spec_note_box_def assms(3,4))
  have s: "note_y L = spec_note_y sz" "note_height L = spec_note_height sz"
    by (simp_all add: L spec_layout_def)
  show ?thesis
  proof (cases "32 \<le> sz")
    case False
    with assms(6) have "img = img1" by (simp add: note_lines_def)
    with c d p1 show ?thesis by (simp add: getpixel_def inside_def)
  next
    case True
    note b = spec_layout_bounds [OF assms(1,2), folded L]
    from lines_layout_general [OF b(1,2), of sz] obtain A where
      A: "lines_layout sz L = Inr A" "line_spacing A = max 2 (sz div 8)" by blast
    from note_lines_general [OF True b(1-4), of img1] A(1) assms(6)
    have i: "img = spec_lines L A img1" by simp
    have ls: "0 \<le> line_spacing A" by (simp add: A(2))
    have "spec_note_y sz < spec_line_y L A i" if "0 \<le> i" for i
    proof -
      from that ls have "0 \<le> i * line_spacing A" by simp
      with first_line_below [OF True] show ?thesis
        by (simp only: spec_line_y_def s floor_mul_0_3)
    qed
    then have n: "\<not> in_box (spec_line_box L A i) (spec_note_x sz, spec_note_y sz)"
      if "0 \<le> i" for i
      using that by (simp add: in_box_def spec_line_box_def not_le)
    have "pixels img (spec_note_x sz, spec_note_y sz) = white"
      by (simp add: i spec_lines_def rectangle_def n p1)
    moreover have "width img = sz" "height img = sz"
      by (simp_all add: i width_spec_lines height_spec_lines d)
    ultimately show ?thesis using c by (simp add: getpixel_def inside_def)
  qed
qed

lemma create_icon_alloc:
  "create_icon shape sz =
     (case Image_new (sz, sz) transparent of
        Inl e \<Rightarrow> Inl e
      | Inr img0 \<Rightarrow>
          (case note_card shape sz img0 of
             Inl e \<Rightarrow> Inl e
           | Inr (L, img) \<Rightarrow> note_lines sz L img))"
  by (simp add: create_icon_def draw_note_def split: sum.splits)

lemma Image_new_Inr:
  assumes "Image_new (w, h) c = Inr img"
  shows "0 \<le> w" and "w < 2 ^ 49" and "width img = w" and "height img = h"
  using assms by (auto simp add: Image_new_def split: if_splits)

lemma int_of_product_eval_neg:
  "int_of_product (- 1) float_0_8 = Inr 0" "int_of_product (- 2) float_0_8 = Inr (- 1)"
  "int_of_product (- 3) float_0_8 = Inr (- 2)"
  by (simp_all add: int_of_product_eval)

lemma note_layout_small:
  "note_layout 1 = Inr \<lparr>margin = 1, radius = 2, note_margin = 2, note_width = - 3,
      note_height = - 2, note_x = 2, note_y = 1\<rparr>"
  "note_layout 2 = Inr \<lparr>margin = 1, radius = 2, note_margin = 2, note_width = - 2,
      note_height = - 1, note_x = 2, note_y = 1\<rparr>"
  "note_layout 3 = Inr \<lparr>margin = 1, radius = 2, note_margin = 2, note_width = - 1,
      note_height = 0, note_x = 2, note_y = 1\<rparr>"
  by (simp_all add: note_layout_def int_of_product_eval_neg)

lemma create_icon_small:
  "create_icon shape 1 = Inl (ValueError ''x1 must be greater than or equal to x0'')"
  "create_icon shape 2 = Inl (ValueError ''x1 must be greater than or equal to x0'')"
  "create_icon shape 3 = Inl (ValueError ''x1 must be greater than or equal to x0'')"
  by (simp_all add: create_icon_alloc Image_new_def note_card_def draw_rounded_rectangle_def
      draw_rectangle_def check_box_def note_layout_small note_box_def)

text \<open>
  Claim C4 says that the layout follows the stated formulas, with floor, at every positive
  size. \<open>spec_layout\<close> is the layout of the stated formulas. At size 2 the note is
  \<open>- 2\<close> wide; \<^verbatim>\<open>int(-2 * 0.8)\<close> truncates \<open>-1.6\<close> to \<open>- 1\<close>, where the floor is \<open>- 2\<close>, so
  \<^verbatim>\<open>note_height\<close> and \<^verbatim>\<open>note_y\<close> differ from the formulas; and no note rectangle is drawn:
  the box \<open>[2, 1, 0, 0]\<close> is rejected by \<^verbatim>\<open>draw.rectangle\<close>.
\<close>

theorem layout_size_2_counterexample:
  "note_layout 2 =
     Inr \<lparr>margin = 1, radius = 2, note_margin = 2, note_width = - 2, note_height = - 1,
          note_x = 2, note_y = 1\<rparr> \<and>
   spec_layout 2 =
     \<lparr>margin = 1, radius = 2, note_margin = 2, note_width = - 2, note_height = - 2,
      note_x = 2, note_y = 2\<rparr> \<and>
   create_icon (\<lambda>b r p. True) 2 =
     Inl (ValueError ''x1 must be greater than or equal to x0'')"
  by (simp add: note_layout_small create_icon_small spec_layout_eq)

text \<open>
  Claim C4, amended. For every size from 4 up to \<open>2\<^sup>4\<^sup>9\<close>, the layout that
  \<^verbatim>\<open>create_icon\<close> computes is the layout of the stated formulas, with floor, and on the
  allocated bitmap \<open>img0\<close> the badge is drawn in the box
  \<open>[margin, margin, size - margin, size - margin]\<close> with the stated radius, then the white
  note rectangle from \<open>[note_x, note_y]\<close> to \<open>[note_x + note_width, note_y + note_height]\<close>.
\<close>

theorem layout_formulas:
  assumes "4 \<le> sz" and "sz < 2 ^ 49"
  shows "note_layout sz = Inr (spec_layout sz) \<and>
    note_card shape sz img0 =
      Inr (spec_layout sz,
           rectangle (spec_note_box sz) white
             (rounded_rectangle shape (spec_badge_box sz) (spec_radius sz) ios_blue img0))"
  using note_layout_general [OF assms] note_card_general [OF assms] by (rule conjI)

theorem layout_formulas_witness:
  "(4 :: int) \<le> 128 \<and> (128 :: int) < 2 ^ 49 \<and>
   note_layout 128 = Inr (spec_layout 128) \<and>
   note_card (\<lambda>b r p. True) 128
       \<lparr>width = 128, height = 128, pixels = (\<lambda>p. transparent)\<rparr> =
     Inr (spec_layout 128,
          rectangle (spec_note_box 128) white
            (rounded_rectangle (\<lambda>b r p. True) (spec_badge_box 128) (spec_radius 128) ios_blue
               \<lparr>width = 128, height = 128, pixels = (\<lambda>p. transparent)\<rparr>)) \<and>
   spec_layout 128 =
     \<lparr>margin = 16, radius = 21, note_margin = 32, note_width = 64, note_height = 51,
      note_x = 32, note_y = 38\<rparr>"
  using layout_formulas [of 128 "\<lambda>b r p. True"
      "\<lparr>width = 128, height = 128, pixels = (\<lambda>p. transparent)\<rparr>"]
  by (simp add: spec_layout_eq)

text \<open>
  Claim C2 says that \<^verbatim>\<open>create_icon\<close> returns a bitmap at every positive size. At the
  sizes 1, 2 and 3 it raises ValueError: the badge box \<open>[1, 1, 0, 0]\<close> of size 1 and the
  note boxes \<open>[2, 1, 0, 0]\<close> and \<open>[2, 1, 1, 1]\<close> of sizes 2 and 3 end left of where they
  start (\<^verbatim>\<open>note_width\<close> is \<open>- 3\<close>, \<open>- 2\<close>, \<open>- 1\<close>).
\<close>

theorem small_sizes_counterexample:
  "create_icon (\<lambda>b r p. True) 1 =
     Inl (ValueError ''x1 must be greater than or equal to x0'') \<and>
   create_icon (\<lambda>b r p. True) 2 =
     Inl (ValueError ''x1 must be greater than or equal to x0'') \<and>
   create_icon (\<lambda>b r p. True) 3 =
     Inl (ValueError ''x1 must be greater than or equal to x0'')"
  by (simp add: create_icon_small)

text \<open>
  Claim C2, amended. For every size from 4 on, the only call of \<^verbatim>\<open>create_icon\<close> that
  can raise is \<^verbatim>\<open>Image.new\<close>: if it raises, \<^verbatim>\<open>create_icon\<close> raises the same exception, and
  if it returns, \<^verbatim>\<open>create_icon\<close> returns a bitmap of \<open>size \<times> size\<close> pixels in which the
  pixel at \<open>(note_x, note_y)\<close>, the corner of the note card, is white. Indeed, on any
  allocated bitmap and for any size from 4 up to \<open>2\<^sup>4\<^sup>9\<close>, the geometry and the drawing
  calls of source lines 13 to 47 succeed and keep the dimensions of the bitmap.
\<close>

theorem no_error_from_size_4:
  assumes "4 \<le> sz"
  shows "(sz < 2 ^ 49 \<longrightarrow>
      (\<exists>L img1 img. note_card shape sz img0 = Inr (L, img1) \<and>
         note_lines sz L img1 = Inr img \<and>
         width img = width img0 \<and> height img = height img0)) \<and>
    (case Image_new (sz, sz) transparent of
       Inl e \<Rightarrow> create_icon shape sz = Inl e
     | Inr img0 \<Rightarrow>
         (\<exists>L img. note_layout sz = Inr L \<and> create_icon shape sz = Inr img \<and>
            width img = sz \<and> height img = sz \<and>
            getpixel img (note_x L, note_y L) = Some white))"
proof -
  have a: "\<exists>L img1 img. note_card shape sz i0 = Inr (L, img1) \<and>
         note_lines sz L img1 = Inr img \<and> width img = width i0 \<and> height img = height i0"
    if lt: "sz < 2 ^ 49" for i0
  proof -
    define img1 where "img1 = rectangle (spec_note_box sz) white
      (rounded_rectangle shape (spec_badge_box sz) (spec_radius sz) ios_blue i0)"
    have c: "note_card shape sz i0 = Inr (spec_layout sz, img1)"
      unfolding img1_def by (rule note_card_general [OF assms lt])
    have d: "width img1 = width i0" "height img1 = height i0"
      by (simp_all add: img1_def rectangle_def rounded_rectangle_def)
    note b = spec_layout_bounds [OF assms lt]
    show ?thesis
    proof (cases "32 \<le> sz")
      case True
      from note_lines_general [OF True b(1-4), of img1] obtain A where
        "note_lines sz (spec_layout sz) img1 = Inr (spec_lines (spec_layout sz) A img1)"
        by blast
      with c d show ?thesis
        by (simp add: width_spec_lines height_spec_lines)
    next
      case False
      then have "note_lines sz (spec_layout sz) img1 = Inr img1"
        by (simp add: note_lines_def)
      with c d show ?thesis by simp
    qed
  qed
  have b: "\<exists>L img. note_layout sz = Inr L \<and> create_icon shape sz = Inr img \<and>
      width img = sz \<and> height img = sz \<and> getpixel img (note_x L, note_y L) = Some white"
    if n: "Image_new (sz, sz) transparent = Inr i0" for i0
  proof -
    note i = Image_new_Inr [OF n]
    from a [OF i(2), of i0] obtain L img1 img where
      x: "note_card shape sz i0 = Inr (L, img1)" "note_lines sz L img1 = Inr img"
      "width img = width i0" "height img = height i0"
      by blast
    have c: "create_icon shape sz = Inr img"
      by (simp add: create_icon_alloc n x)
    have l: "note_layout sz = Inr (spec_layout sz)"
      by (rule note_layout_general [OF assms i(2)])
    have p: "getpixel img (note_x (spec_layout sz), note_y (spec_layout sz)) = Some white"
      using note_corner_white [OF assms i(2,3,4) x(1,2)] by (simp add: spec_layout_def)
    from l c x(3,4) i(3,4) p show ?thesis by simp
  qed
  show ?thesis
    using a [of img0] b by (auto simp add: create_icon_alloc split: sum.splits)
qed

theorem no_error_from_size_4_witness:
  "(4 :: int) \<le> 64 \<and> (64 :: int) < 2 ^ 49 \<and>
   (\<exists>L img1 img.
      note_card (\<lambda>b r p. True) 64
        \<lparr>width = 64, height = 64, pixels = (\<lambda>p. transparent)\<rparr> = Inr (L, img1) \<and>
      note_lines 64 L img1 = Inr img \<and> width img = 64 \<and> height img = 64) \<and>
   (\<exists>L img. note_layout 64 = Inr L \<and> create_icon (\<lambda>b r p. True) 64 = Inr img \<and>
      width img = 64 \<and> height img = 64 \<and>
      getpixel img (note_x L, note_y L) = Some white)"
proof -
  have n: "Image_new (64, 64) transparent =
      Inr \<lparr>width = 64, height = 64, pixels = (\<lambda>p. transparent)\<rparr>"
    by (simp add: Image_new_def)
  have g: "(4 :: int) \<le> 64" by simp
  note t = no_error_from_size_4 [OF g, of "\<lambda>b r p. True"
      "\<lparr>width = 64, height = 64, pixels = (\<lambda>p. transparent)\<rparr>"]
  from t have a: "\<exists>L img1 img.
      note_card (\<lambda>b r p. True) 64
        \<lparr>width = 64, height = 64, pixels = (\<lambda>p. transparent)\<rparr> = Inr (L, img1) \<and>
      note_lines 64 L img1 = Inr img \<and> width img = 64 \<and> height img = 64"
    by simp
  from t have b: "\<exists>L img. note_layout 64 = Inr L \<and>
      create_icon (\<lambda>b r p. True) 64 = Inr img \<and>
      width img = 64 \<and> height img = 64 \<and>
      getpixel img (note_x L, note_y L) = Some white"
    by (simp add: n)
  from a b show ?thesis by simp
qed

text \<open>
  Claim C5 speaks of every size from 32 on. \<^verbatim>\<open>Image.new\<close> refuses a size that does not fit
  a C integer, so at the size \<open>2\<^sup>6\<^sup>4\<close> \<^verbatim>\<open>create_icon\<close> raises before anything is drawn.
\<close>

theorem huge_size_counterexample:
  "(32 :: int) \<le> 2 ^ 64 \<and> (\<exists>e. create_icon (\<lambda>b r p. True) (2 ^ 64) = Inl e)"
  by (simp add: create_icon_alloc Image_new_def)

text \<open>
  Claim C5, amended. Let \<^verbatim>\<open>create_icon\<close> have drawn the note card at size \<open>sz\<close>, with
  layout \<open>L\<close> and bitmap \<open>img\<close>. If \<open>sz < 32\<close>, the bitmap is returned as it is: no accent
  line is drawn. If \<open>32 \<le> sz < 2\<^sup>4\<^sup>9\<close>, the line variables \<open>A\<close> are computed, \<^verbatim>\<open>line_y\<close> is
  \<open>note_y + \<lfloor>note_height \<cdot> 0.3\<rfloor> + i \<cdot> line_spacing\<close> for every index, and the bitmap
  returned is \<open>spec_lines L A img\<close>: the indices 0, 1, 2 are visited in this order, the
  rectangle \<open>[line_x, line_y, line_x + line_width, line_y + line_height]\<close> of an index is
  filled if and only if \<open>line_y + line_height < note_y + note_height\<close>, and an index whose
  line does not fit is passed over without ending the loop.
\<close>

theorem lines_drawn_iff_fit:
  assumes "draw_note shape sz = Inr (L, img)"
  shows "(sz < 32 \<longrightarrow> create_icon shape sz = Inr img) \<and>
    (32 \<le> sz \<longrightarrow> sz < 2 ^ 49 \<longrightarrow>
       (\<exists>A. lines_layout sz L = Inr A \<and>
          (\<forall>i. line_y L A i = Inr (spec_line_y L A i)) \<and>
          create_icon shape sz = Inr (spec_lines L A img)))"
proof -
  have c: "create_icon shape sz = note_lines sz L img"
    by (simp add: create_icon_def assms)
  have "\<exists>A. lines_layout sz L = Inr A \<and>
          (\<forall>i. line_y L A i = Inr (spec_line_y L A i)) \<and>
          create_icon shape sz = Inr (spec_lines L A img)"
    if ge: "32 \<le> sz" and lt: "sz < 2 ^ 49"
  proof -
    from ge have g4: "4 \<le> sz" by simp
    from assms obtain img0 where "note_card shape sz img0 = Inr (L, img)"
      by (auto simp add: draw_note_def split: sum.splits)
    then have L: "L = spec_layout sz"
      by (simp add: note_card_general [OF g4 lt])
    note b = spec_layout_bounds [OF g4 lt, folded L]
    show ?thesis
      unfolding c by (rule note_lines_general [OF ge b(1-4)])
  qed
  then show ?thesis by (simp add: c note_lines_def)
qed

theorem lines_drawn_iff_fit_witness:
  "draw_note (\<lambda>b r p. True) 48 =
     Inr (\<lparr>margin = 6, radius = 8, note_margin = 12, note_width = 24,
            note_height = 19, note_x = 12, note_y = 14\<rparr>,
          rectangle (12, 14, 36, 33) white
            (rounded_rectangle (\<lambda>b r p. True) (6, 6, 42, 42) 8 ios_blue
               \<lparr>width = 48, height = 48, pixels = (\<lambda>p. transparent)\<rparr>)) \<and>
   (32 :: int) \<le> 48 \<and> (48 :: int) < 2 ^ 49 \<and>
   create_icon (\<lambda>b r p. True) 48 =
     Inr (spec_lines
            \<lparr>margin = 6, radius = 8, note_margin = 12, note_width = 24,
             note_height = 19, note_x = 12, note_y = 14\<rparr>
            \<lparr>line_height = 3, line_spacing = 6, line_width = 16, line_x = 15\<rparr>
            (rectangle (12, 14, 36, 33) white
               (rounded_rectangle (\<lambda>b r p. True) (6, 6, 42, 42) 8 ios_blue
                  \<lparr>width = 48, height = 48, pixels = (\<lambda>p. transparent)\<rparr>)))"
proof -
  define L where "L = \<lparr>margin = 6, radius = 8, note_margin = 12, note_width = 24,
            note_height = 19, note_x = 12, note_y = (14 :: int)\<rparr>"
  define I where "I = rectangle (12, 14, 36, 33) white
            (rounded_rectangle (\<lambda>b r p. True) (6, 6, 42, 42) 8 ios_blue
               \<lparr>width = 48, height = 48, pixels = (\<lambda>p. transparent)\<rparr>)"
  have d: "draw_note (\<lambda>b r p. True) 48 = Inr (L, I)"
    unfolding L_def I_def by (rule draw_note_48)
  have l: "lines_layout 48 L =
      Inr \<lparr>line_height = 3, line_spacing = 6, line_width = 16, line_x = 15\<rparr>"
    unfolding L_def by (rule lines_layout_48)
  from lines_drawn_iff_fit [OF d] have "\<exists>A. lines_layout 48 L = Inr A \<and>
          (\<forall>i. line_y L A i = Inr (spec_line_y L A i)) \<and>
          create_icon (\<lambda>b r p. True) 48 = Inr (spec_lines L A I)"
    by simp
  then have "create_icon (\<lambda>b r p. True) 48 =
      Inr (spec_lines L \<lparr>line_height = 3, line_spacing = 6, line_width = 16, line_x = 15\<rparr> I)"
    by (auto simp add: l)
  with d show ?thesis
    unfolding L_def I_def by simp
qed

end
